theory Spec2Isabelle
  imports Main "HOL-Library.Char_ord" "HOL-Library.List_Lexorder"
begin

section \<open>The netatmo client: token manager, station directory, CSV exporter\<close>

text \<open>
  A shallow embedding of \<^verbatim>\<open>netatmo.py\<close>.  The object state of class
  \<^verbatim>\<open>WeatherStation\<close> is a record that every method takes and returns; everything
  outside the process (the configuration files, the requests sent, the clock, the lines
  printed) is a second record, \<open>world\<close>.  What the outside answers is an \<open>env\<close>: the
  reply of the server to the k-th request, the k-th reading of the clock and the
  date functions of the standard library.  An exception is the value \<open>Inl e\<close>.

  Conventions.
  \<^item> Strings are byte lists.  \<^verbatim>\<open>str.lower\<close> is a function of the environment
    (\<open>str_lower\<close>), so that nothing is said about how letters outside ASCII fold.
  \<^item> \<^verbatim>\<open>time.time()\<close> returns a float; the model reads an integer number of seconds.
  \<^item> A configuration file holds the configuration that was written to it (the default
    section and the named sections handed to \<^verbatim>\<open>config.write\<close>).  What a later
    \<^verbatim>\<open>config.read\<close> makes of it is a function of the environment (\<open>reparse\<close>):
    \<^verbatim>\<open>configparser\<close> strips blanks around values and may fail to parse.  Opening the
    empty file name for writing fails; other failures of the file system are not
    modelled.
  \<^item> \<^verbatim>\<open>trace\<close> prints nothing at the default verbosity 0 and is omitted; of the
    lines printed, only the error line of \<^verbatim>\<open>accessToken\<close> is kept.
  \<^item> In the records of stations and modules, \<open>entry_id\<close> is the key \<^verbatim>\<open>_id\<close> and
    \<open>mod_name\<close> the key \<^verbatim>\<open>module_name\<close>; every record has all its keys.
\<close>

subsection \<open>Errors and values\<close>

datatype pyerror =
    ValueError | KeyError | TypeError | AttributeError | UnicodeDecodeError
  | NoSectionError | TransportError | ParsingError | FileNotFoundError

text \<open>The value of the \<^verbatim>\<open>accessToken\<close> property: \<^verbatim>\<open>None\<close>, \<^verbatim>\<open>False\<close> or a token.\<close>

datatype token_value = PyNone | PyFalse | Token string

subsection \<open>configparser\<close>

type_synonym options = "string \<rightharpoonup> string"

record config =
  defaults :: options
  sections :: "string \<rightharpoonup> options"

definition empty_config :: config where
  "empty_config = \<lparr>defaults = Map.empty, sections = Map.empty\<rparr>"

text \<open>
  \<^verbatim>\<open>BasicInterpolation.before_set\<close>: a value is accepted when, after deleting every
  \<^verbatim>\<open>%%\<close> and every match of \<^verbatim>\<open>%\(([^)]+)\)s\<close>, no \<^verbatim>\<open>%\<close> is left.
\<close>

fun replace_pp :: "string \<Rightarrow> string" where
  "replace_pp (a # b # r) =
     (if a = CHR ''%'' \<and> b = CHR ''%'' then replace_pp r else a # replace_pp (b # r))"
| "replace_pp r = r"

text \<open>The length of the match of the key pattern at the head of the string, if any.\<close>

definition keycre_match :: "string \<Rightarrow> nat option" where
  "keycre_match s =
     (case s of
        a # b # r \<Rightarrow>
          (if a = CHR ''%'' \<and> b = CHR ''(''
           then (let k = takeWhile (\<lambda>c. c \<noteq> CHR '')'') r;
                     r' = dropWhile (\<lambda>c. c \<noteq> CHR '')'') r
                 in if k \<noteq> [] \<and> take 2 r' = '')s'' then Some (length k + 4) else None)
           else None)
      | _ \<Rightarrow> None)"

fun keycre_sub :: "string \<Rightarrow> string" where
  "keycre_sub [] = []"
| "keycre_sub (c # r) =
     (case keycre_match (c # r) of
        Some n \<Rightarrow> keycre_sub (drop (n - 1) r)
      | None \<Rightarrow> c # keycre_sub r)"

definition before_set :: "string \<Rightarrow> pyerror + string" where
  "before_set v =
     (if CHR ''%'' \<in> set (keycre_sub (replace_pp v)) then Inl ValueError else Inr v)"

text \<open>
  \<^verbatim>\<open>RawConfigParser.set\<close>: the section must exist; a non-empty value is validated.
\<close>

definition config_set :: "config \<Rightarrow> string \<Rightarrow> string \<Rightarrow> string \<Rightarrow> pyerror + config" where
  "config_set c sec opt v =
     (case (if v = [] then Inr v else before_set v) of
        Inl e \<Rightarrow> Inl e
      | Inr v' \<Rightarrow>
          (case sections c sec of
             None \<Rightarrow> Inl NoSectionError
           | Some d \<Rightarrow> Inr (c\<lparr>sections := (sections c)(sec \<mapsto> d(opt \<mapsto> v'))\<rparr>)))"

definition has_section :: "config \<Rightarrow> string \<Rightarrow> bool" where
  "has_section c sec = (sections c sec \<noteq> None)"

definition add_section :: "config \<Rightarrow> string \<Rightarrow> config" where
  "add_section c sec = c\<lparr>sections := (sections c)(sec \<mapsto> Map.empty)\<rparr>"

definition remove_option :: "config \<Rightarrow> string \<Rightarrow> string \<Rightarrow> pyerror + config" where
  "remove_option c sec opt =
     (case sections c sec of
        None \<Rightarrow> Inl NoSectionError
      | Some d \<Rightarrow> Inr (c\<lparr>sections := (sections c)(sec \<mapsto> d(opt := None))\<rparr>))"

definition remove_section :: "config \<Rightarrow> string \<Rightarrow> config" where
  "remove_section c sec = c\<lparr>sections := (sections c)(sec := None)\<rparr>"

definition has_option :: "config \<Rightarrow> string \<Rightarrow> string \<Rightarrow> bool" where
  "has_option c sec opt =
     (case sections c sec of
        None \<Rightarrow> False
      | Some d \<Rightarrow> d opt \<noteq> None \<or> defaults c opt \<noteq> None)"

text \<open>
  \<^verbatim>\<open>config[sec] = {k1: v1, ...}\<close>: the section is emptied (or created) and the
  options are set one by one, in the order of the dictionary.
\<close>

fun set_all :: "config \<Rightarrow> string \<Rightarrow> (string \<times> string) list \<Rightarrow> pyerror + config" where
  "set_all c sec [] = Inr c"
| "set_all c sec ((k, v) # kvs) =
     (case config_set c sec k v of
        Inl e \<Rightarrow> Inl e
      | Inr c' \<Rightarrow> set_all c' sec kvs)"

definition setitem :: "config \<Rightarrow> string \<Rightarrow> (string \<times> string) list \<Rightarrow> pyerror + config" where
  "setitem c sec kvs = set_all (add_section c sec) sec kvs"

subsection \<open>The object, the world and the environment\<close>

record module =
  entry_id :: string
  mod_name :: string
  data_type :: "string list"

record station = module +
  station_name :: string
  modules :: "module list"

record weather_station =
  client_id :: "string option"
  client_secret :: "string option"
  username :: "string option"
  password :: "string option"
  access_token :: "string option"
  refresh_token :: "string option"
  expiration :: "int option"
  default_station :: "string option"
  devices :: "station list option"
  rc_file :: "string option"

text \<open>
  \<^verbatim>\<open>_refresh_token\<close> and \<^verbatim>\<open>_expiration\<close> are not set by \<^verbatim>\<open>__init__\<close>: \<open>None\<close> in
  these two fields is the missing attribute, and reading it is an \<open>AttributeError\<close>.
\<close>

type_synonym page = "(nat \<times> string list) list"

datatype request =
    Password_grant string string string string
  | Refresh_grant string string string
  | Get_measure token_value string "string option" string string "nat option"

text \<open>
  What \<^verbatim>\<open>_postRequest\<close> gives back: the request raises, or the body is JSON
  \<^verbatim>\<open>null\<close>, an object with the key \<^verbatim>\<open>error\<close>, the token object of the OAuth2
  endpoint, the object of \<^verbatim>\<open>getmeasure\<close> with its status and body, or some other
  object with none of these keys.  The body of a measure reply maps each timestamp
  (a decimal key) to the list of values, here the texts they are written as.
\<close>

datatype reply =
    Raises
  | Null
  | Error_obj string
  | Token_obj string string int
  | Measure_obj string page
  | Other_obj

record world =
  files :: "string \<rightharpoonup> config"
  csv_files :: "string \<rightharpoonup> string"
  sent :: "request list"
  ticks :: nat
  stdout :: "string list"

record env =
  net :: "nat \<Rightarrow> request \<Rightarrow> reply"
  clock :: "nat \<Rightarrow> int"
  isoformat :: "int \<Rightarrow> string option"
  strptime :: "string \<Rightarrow> int option"
  strftime :: "nat \<Rightarrow> string"
  interpolate :: "config \<Rightarrow> string \<Rightarrow> string \<Rightarrow> string option"
  reparse :: "config \<Rightarrow> pyerror + config"
  str_lower :: "string \<Rightarrow> string"

definition AUTH_REQ :: string where
  "AUTH_REQ = ''https://api.netatmo.com/oauth2/token''"

definition time_time :: "env \<Rightarrow> world \<Rightarrow> int \<times> world" where
  "time_time E w = (clock E (ticks w), w\<lparr>ticks := Suc (ticks w)\<rparr>)"

definition postRequest :: "env \<Rightarrow> request \<Rightarrow> world \<Rightarrow> reply \<times> world" where
  "postRequest E req w = (net E (length (sent w)) req, w\<lparr>sent := sent w @ [req]\<rparr>)"

definition print :: "string \<Rightarrow> world \<Rightarrow> world" where
  "print line w = w\<lparr>stdout := stdout w @ [line]\<rparr>"

text \<open>
  \<^verbatim>\<open>if os.path.exists(rc): config.read(rc)\<close> on a fresh parser, and
  \<^verbatim>\<open>with open(rc, "w") as f: config.write(f)\<close>.
\<close>

definition read_config :: "env \<Rightarrow> world \<Rightarrow> string \<Rightarrow> pyerror + config" where
  "read_config E w rc = (case files w rc of None \<Rightarrow> Inr empty_config | Some c \<Rightarrow> reparse E c)"

definition write_config :: "world \<Rightarrow> string \<Rightarrow> config \<Rightarrow> pyerror + world" where
  "write_config w rc c =
     (if rc = [] then Inl FileNotFoundError else Inr (w\<lparr>files := (files w)(rc \<mapsto> c)\<rparr>))"

subsection \<open>Credentials and tokens\<close>

definition auth ::
  "weather_station \<Rightarrow> string option \<Rightarrow> string option \<Rightarrow> string option \<Rightarrow> string option
     \<Rightarrow> weather_station" where
  "auth ws cid secret user pass =
     ws\<lparr>client_id := cid, client_secret := secret, username := user, password := pass,
        access_token := None\<rparr>"

text \<open>\<^verbatim>\<open>config[sec][opt]\<close>: the section's own option, else the default, interpolated.\<close>

definition config_get :: "env \<Rightarrow> config \<Rightarrow> string \<Rightarrow> string \<Rightarrow> string option" where
  "config_get E c sec opt =
     (case sections c sec of
        None \<Rightarrow> None
      | Some d \<Rightarrow>
          (case (case d opt of Some v \<Rightarrow> Some v | None \<Rightarrow> defaults c opt) of
             None \<Rightarrow> None
           | Some v \<Rightarrow> interpolate E c sec v))"

text \<open>
  \<^verbatim>\<open>loadCredentials\<close>.  The file is read before the \<^verbatim>\<open>try\<close> block, so a file that
  does not parse raises.  Any exception inside the block resets the four credentials;
  \<^verbatim>\<open>default_station\<close> keeps what it had.
\<close>

definition credentials_from :: "env \<Rightarrow> weather_station \<Rightarrow> config \<Rightarrow> weather_station" where
  "credentials_from E ws c =
     (case (config_get E c ''netatmo'' ''client_id'',
            config_get E c ''netatmo'' ''client_secret'',
            config_get E c ''netatmo'' ''username'',
            config_get E c ''netatmo'' ''password'') of
        (Some cid, Some secret, Some user, Some pass) \<Rightarrow>
          (let ws1 = auth ws (Some cid) (Some secret) (Some user) (Some pass) in
           if has_option c ''netatmo'' ''default_station''
           then (case config_get E c ''netatmo'' ''default_station'' of
                   Some d \<Rightarrow> ws1\<lparr>default_station := Some d\<rparr>
                 | None \<Rightarrow> auth ws1 None None None None)
           else ws1)
      | _ \<Rightarrow> auth ws None None None None)"

definition loadCredentials ::
  "env \<Rightarrow> weather_station \<Rightarrow> world \<Rightarrow> pyerror + weather_station" where
  "loadCredentials E ws w =
     (case rc_file ws of
        None \<Rightarrow> Inr ws
      | Some rc \<Rightarrow>
          (case read_config E w rc of
             Inl e \<Rightarrow> Inl e
           | Inr c \<Rightarrow> Inr (credentials_from E ws c)))"

definition str_opt :: "string option \<Rightarrow> string" where
  "str_opt v = (case v of None \<Rightarrow> ''None'' | Some s \<Rightarrow> s)"

text \<open>
  \<^verbatim>\<open>saveCredentials\<close>: the configuration read from the file is updated in memory
  (any rejected value raises before the file is opened) and then written.
\<close>

definition credentials_config :: "weather_station \<Rightarrow> config \<Rightarrow> pyerror + config" where
  "credentials_config ws c0 =
     (let c1 = (if \<not> has_section c0 ''netatmo'' then add_section c0 ''netatmo'' else c0)
      in case config_set c1 ''netatmo'' ''client_id'' (str_opt (client_id ws)) of
           Inl e \<Rightarrow> Inl e
         | Inr c2 \<Rightarrow>
        (case config_set c2 ''netatmo'' ''client_secret'' (str_opt (client_secret ws)) of
           Inl e \<Rightarrow> Inl e
         | Inr c3 \<Rightarrow>
        (case config_set c3 ''netatmo'' ''username'' (str_opt (username ws)) of
           Inl e \<Rightarrow> Inl e
         | Inr c4 \<Rightarrow>
        (case config_set c4 ''netatmo'' ''password'' (str_opt (password ws)) of
           Inl e \<Rightarrow> Inl e
         | Inr c5 \<Rightarrow>
        (case (case default_station ws of
                 None \<Rightarrow> remove_option c5 ''netatmo'' ''default_station''
               | Some d \<Rightarrow> config_set c5 ''netatmo'' ''default_station'' d) of
           Inl e \<Rightarrow> Inl e
         | Inr c6 \<Rightarrow> Inr (remove_section c6 ''netatmo/tokens''))))))"

definition saveCredentials :: "env \<Rightarrow> weather_station \<Rightarrow> world \<Rightarrow> pyerror + world" where
  "saveCredentials E ws w =
     (case rc_file ws of
        None \<Rightarrow> Inr w
      | Some rc \<Rightarrow>
          (case read_config E w rc of
             Inl e \<Rightarrow> Inl e
           | Inr c0 \<Rightarrow>
               (case credentials_config ws c0 of
                  Inl e \<Rightarrow> Inl e
                | Inr c \<Rightarrow> write_config w rc c)))"

text \<open>
  \<^verbatim>\<open>loadTokens\<close>: the file is read before the \<^verbatim>\<open>try\<close> block.  The three
  assignments are made in order; an exception at any of them leaves the earlier ones
  and sets \<^verbatim>\<open>_access_token\<close> to \<^verbatim>\<open>None\<close>.
\<close>

definition tokens_from :: "env \<Rightarrow> weather_station \<Rightarrow> config \<Rightarrow> weather_station" where
  "tokens_from E ws c =
     (case config_get E c ''netatmo/tokens'' ''access_token'' of
        None \<Rightarrow> ws\<lparr>access_token := None\<rparr>
      | Some a \<Rightarrow>
     (case config_get E c ''netatmo/tokens'' ''refresh_token'' of
        None \<Rightarrow> ws\<lparr>access_token := None\<rparr>
      | Some r \<Rightarrow>
     (case config_get E c ''netatmo/tokens'' ''expiration'' of
        None \<Rightarrow> ws\<lparr>access_token := None, refresh_token := Some r\<rparr>
      | Some x \<Rightarrow>
     (case strptime E x of
        None \<Rightarrow> ws\<lparr>access_token := None, refresh_token := Some r\<rparr>
      | Some t \<Rightarrow>
          ws\<lparr>access_token := Some a, refresh_token := Some r, expiration := Some t\<rparr>))))"

definition loadTokens :: "env \<Rightarrow> weather_station \<Rightarrow> world \<Rightarrow> pyerror + weather_station" where
  "loadTokens E ws w =
     (case rc_file ws of
        None \<Rightarrow> Inr ws
      | Some rc \<Rightarrow>
          (case read_config E w rc of
             Inl e \<Rightarrow> Inl e
           | Inr c \<Rightarrow> Inr (tokens_from E ws c)))"

text \<open>
  \<^verbatim>\<open>saveTokens\<close>.  The file is read; the dictionary literal reads the three
  attributes; the assignment to the section then validates each value; the file is
  written last.
\<close>

definition saveTokens :: "env \<Rightarrow> weather_station \<Rightarrow> world \<Rightarrow> pyerror + world" where
  "saveTokens E ws w =
     (case rc_file ws of
        None \<Rightarrow> Inr w
      | Some rc \<Rightarrow>
          (case read_config E w rc of
             Inl e \<Rightarrow> Inl e
           | Inr c \<Rightarrow>
          (case refresh_token ws of
             None \<Rightarrow> Inl AttributeError
           | Some r \<Rightarrow>
          (case expiration ws of
             None \<Rightarrow> Inl AttributeError
           | Some e \<Rightarrow>
          (case isoformat E e of
             None \<Rightarrow> Inl ValueError
           | Some stamp \<Rightarrow>
          (case access_token ws of
             None \<Rightarrow> Inl TypeError
           | Some a \<Rightarrow>
          (case setitem c ''netatmo/tokens''
                  [(''access_token'', a), (''refresh_token'', r), (''expiration'', stamp)] of
             Inl err \<Rightarrow> Inl err
           | Inr c' \<Rightarrow> write_config w rc c')))))))"

text \<open>
  The code after \<^verbatim>\<open>_postRequest\<close>, the same in both branches of \<^verbatim>\<open>accessToken\<close>:
  \<^verbatim>\<open>None\<close> gives \<^verbatim>\<open>False\<close>, an error object is printed and gives \<^verbatim>\<open>None\<close>, a token
  object is stored with its expiration and saved.
\<close>

definition store_reply ::
  "env \<Rightarrow> reply \<Rightarrow> weather_station \<Rightarrow> world
     \<Rightarrow> (pyerror + token_value) \<times> weather_station \<times> world" where
  "store_reply E resp ws w =
     (case resp of
        Raises \<Rightarrow> (Inl TransportError, ws, w)
      | Null \<Rightarrow> (Inr PyFalse, ws, w)
      | Error_obj e \<Rightarrow> (Inr PyNone, ws, print (''error '' @ e @ '' '' @ AUTH_REQ) w)
      | Token_obj a r x \<Rightarrow>
          (let (t, w1) = time_time E w;
               ws1 = ws\<lparr>access_token := Some a, refresh_token := Some r,
                        expiration := Some (x + t)\<rparr>
           in case saveTokens E ws1 w1 of
                Inl err \<Rightarrow> (Inl err, ws1, w1)
              | Inr w2 \<Rightarrow> (Inr (Token a), ws1, w2))
      | Measure_obj st body \<Rightarrow> (Inl KeyError, ws, w)
      | Other_obj \<Rightarrow> (Inl KeyError, ws, w))"

definition accessToken ::
  "env \<Rightarrow> weather_station \<Rightarrow> world \<Rightarrow> (pyerror + token_value) \<times> weather_station \<times> world" where
  "accessToken E ws w =
     (case (client_id ws, client_secret ws) of
        (Some cid, Some secret) \<Rightarrow>
          (case access_token ws of
             None \<Rightarrow>
               (case (username ws, password ws) of
                  (Some user, Some pass) \<Rightarrow>
                    (let (resp, w1) = postRequest E (Password_grant cid secret user pass) w
                     in store_reply E resp ws w1)
                | _ \<Rightarrow> (Inr PyNone, ws, w))
           | Some tok \<Rightarrow>
               (case expiration ws of
                  None \<Rightarrow> (Inl AttributeError, ws, w)
                | Some e \<Rightarrow>
                    (let (t, w1) = time_time E w in
                     if e \<le> t
                     then (case refresh_token ws of
                             None \<Rightarrow> (Inl AttributeError, ws, w1)
                           | Some r \<Rightarrow>
                               (let (resp, w2) = postRequest E (Refresh_grant r cid secret) w1
                                in store_reply E resp ws w2))
                     else (Inr (Token tok), ws, w1))))
      | _ \<Rightarrow> (Inr PyNone, ws, w))"

text \<open>
  \<^verbatim>\<open>__init__\<close> with a dictionary (the four credentials and an optional device), or
  with the name of a configuration file (\<^verbatim>\<open>None\<close> is the default name).
\<close>

definition DEFAULT_RC_FILE :: string where
  "DEFAULT_RC_FILE = ''~/.netatmorc''"

datatype configuration =
    Conf_dict "string option" "string option" "string option" "string option" "string option"
  | Conf_file string
  | Conf_none

definition blank :: weather_station where
  "blank = \<lparr>client_id = None, client_secret = None, username = None, password = None,
            access_token = None, refresh_token = None, expiration = None,
            default_station = None, devices = None, rc_file = None\<rparr>"

definition init :: "env \<Rightarrow> configuration \<Rightarrow> world \<Rightarrow> pyerror + weather_station" where
  "init E conf w =
     (let ws = (case conf of
                  Conf_dict cid secret user pass dev \<Rightarrow>
                    (auth blank cid secret user pass)\<lparr>default_station := dev\<rparr>
                | Conf_file name \<Rightarrow> blank\<lparr>rc_file := Some name\<rparr>
                | Conf_none \<Rightarrow> blank\<lparr>rc_file := Some DEFAULT_RC_FILE\<rparr>)
      in if rc_file ws \<noteq> None \<and> rc_file ws \<noteq> Some []
         then (case loadCredentials E ws w of
                 Inl e \<Rightarrow> Inl e
               | Inr ws1 \<Rightarrow> loadTokens E ws1 w)
         else Inr ws)"

subsection \<open>Definitions for the statements and the examples\<close>

text \<open>The fold of the letters A to Z, which is \<^verbatim>\<open>str.lower\<close> on ASCII strings.\<close>

definition lower_char :: "char \<Rightarrow> char" where
  "lower_char c =
     (if CHR ''A'' \<le> c \<and> c \<le> CHR ''Z'' then char_of (of_char c + (32::nat)) else c)"

definition ascii_lower :: "string \<Rightarrow> string" where
  "ascii_lower s = map lower_char s"

text \<open>
  The request that \<^verbatim>\<open>accessToken\<close> has to send in a given state, if any: a password
  grant when no token is held, a refresh grant with the stored refresh token otherwise.
\<close>

definition grant_request :: "weather_station \<Rightarrow> request option" where
  "grant_request ws =
     (case (client_id ws, client_secret ws) of
        (Some cid, Some secret) \<Rightarrow>
          (case access_token ws of
             None \<Rightarrow>
               (case (username ws, password ws) of
                  (Some user, Some pass) \<Rightarrow> Some (Password_grant cid secret user pass)
                | _ \<Rightarrow> None)
           | Some tok \<Rightarrow>
               (case refresh_token ws of
                  Some r \<Rightarrow> Some (Refresh_grant r cid secret)
                | None \<Rightarrow> None))
      | _ \<Rightarrow> None)"

text \<open>A value that \<^verbatim>\<open>config.set\<close> accepts: empty, or without a stray percent sign.\<close>

definition settable :: "string \<Rightarrow> bool" where
  "settable v = (v = [] \<or> before_set v = Inr v)"


definition the_ws :: "pyerror + weather_station \<Rightarrow> weather_station" where
  "the_ws r = (case r of Inl e \<Rightarrow> blank | Inr ws \<Rightarrow> ws)"

definition is_grant :: "request \<Rightarrow> bool" where
  "is_grant req = (case req of Password_grant _ _ _ _ \<Rightarrow> True | Refresh_grant _ _ _ \<Rightarrow> True
                   | Get_measure _ _ _ _ _ _ \<Rightarrow> False)"

definition file_has_section :: "world \<Rightarrow> string \<Rightarrow> string \<Rightarrow> bool" where
  "file_has_section w rc sec = (case files w rc of None \<Rightarrow> False | Some c \<Rightarrow> has_section c sec)"

definition access_twice ::
  "env \<Rightarrow> weather_station \<Rightarrow> world \<Rightarrow> (pyerror + token_value) \<times> weather_station \<times> world" where
  "access_twice E ws w = (case accessToken E ws w of (res, ws1, w1) \<Rightarrow> accessToken E ws1 w1)"

definition env0 :: env where
  "env0 = \<lparr>net = (\<lambda>k req. case req of
                     Password_grant _ _ _ _ \<Rightarrow> Token_obj ''tok1'' ''ref1'' 10800
                   | Refresh_grant _ _ _ \<Rightarrow> Error_obj ''invalid_grant''
                   | Get_measure _ _ _ _ _ _ \<Rightarrow> Other_obj),
           clock = (\<lambda>k. 1000 + int k),
           isoformat = (\<lambda>t. if t = 11800 then Some ''1970-01-01T03:16:40'' else None),
           strptime = (\<lambda>s. if s = ''1970-01-01T03:16:40'' then Some 11800 else None),
           strftime = (\<lambda>t. ''1970-01-01 00:00:00''),
           interpolate = (\<lambda>c sec v. Some v),
           reparse = Inr,
           str_lower = ascii_lower\<rparr>"

text \<open>The same, with a server that answers a refresh grant with new tokens.\<close>

definition env1 :: env where
  "env1 = env0\<lparr>net := (\<lambda>k req. case req of
                            Password_grant _ _ _ _ \<Rightarrow> Token_obj ''tok1'' ''ref1'' 10800
                          | Refresh_grant _ _ _ \<Rightarrow> Token_obj ''tok2'' ''ref2'' 10800
                          | Get_measure _ _ _ _ _ _ \<Rightarrow> Other_obj),
               isoformat := (\<lambda>t. if t = 11801 then Some ''1970-01-01T03:16:41'' else None)\<rparr>"

definition w0 :: world where
  "w0 = \<lparr>files = Map.empty, csv_files = Map.empty, sent = [], ticks = 0, stdout = []\<rparr>"

definition ws_dict :: weather_station where
  "ws_dict =
     the_ws (init env0 (Conf_dict (Some ''id'') (Some ''secret'') (Some ''user'') (Some ''pw'') None) w0)"

definition ws_nouser :: weather_station where
  "ws_nouser = the_ws (init env0 (Conf_dict (Some ''id'') (Some ''secret'') None None None) w0)"

definition ws_empty_user :: weather_station where
  "ws_empty_user =
     the_ws (init env0 (Conf_dict (Some ''id'') (Some ''secret'') (Some []) (Some []) None) w0)"

definition credentials0 :: options where
  "credentials0 = [''client_id'' \<mapsto> ''id'', ''client_secret'' \<mapsto> ''secret'',
                   ''username'' \<mapsto> ''user'', ''password'' \<mapsto> ''pw'']"

definition tokens0 :: options where
  "tokens0 = [''access_token'' \<mapsto> ''tok0'', ''refresh_token'' \<mapsto> ''ref0'',
              ''expiration'' \<mapsto> ''1970-01-01T03:16:40'']"

definition w_creds :: world where
  "w_creds = w0\<lparr>files := [''rc'' \<mapsto>
                 \<lparr>defaults = Map.empty, sections = [''netatmo'' \<mapsto> credentials0]\<rparr>]\<rparr>"

definition w_both :: world where
  "w_both = w0\<lparr>files := [''rc'' \<mapsto>
                \<lparr>defaults = Map.empty,
                 sections = [''netatmo'' \<mapsto> credentials0, ''netatmo/tokens'' \<mapsto> tokens0]\<rparr>]\<rparr>"

text \<open>
  An object made from a file with credentials and tokens, given a client id and secret
  without user name and password by \<^verbatim>\<open>auth\<close>, its tokens loaded again by
  \<^verbatim>\<open>loadTokens\<close>.
\<close>

definition ws_token_nouser :: weather_station where
  "ws_token_nouser =
     the_ws (loadTokens env0
               (auth (the_ws (init env0 (Conf_file ''rc'') w_both))
                  (Some ''id'') (Some ''secret'') None None)
               w_both)"

definition ws_expired :: weather_station where
  "ws_expired = blank\<lparr>client_id := Some ''id'', client_secret := Some ''secret'',
                      username := Some ''user'', password := Some ''pw'',
                      access_token := Some ''tok0'', refresh_token := Some ''ref0'',
                      expiration := Some 500\<rparr>"

definition ws_fresh :: weather_station where
  "ws_fresh = auth (the_ws (init env0 (Conf_file ''rc'') w0))
                (Some ''id'') (Some ''secret'') (Some ''user'') (Some ''pw'')"

definition ws_loaded :: weather_station where
  "ws_loaded = the_ws (init env0 (Conf_file ''rc'') w_creds)"

definition ws_tokens :: weather_station where
  "ws_tokens = ws_loaded\<lparr>access_token := Some ''tok1'', refresh_token := Some ''ref1'',
                         expiration := Some 11800\<rparr>"

definition ws_expired_rc :: weather_station where
  "ws_expired_rc = ws_expired\<lparr>rc_file := Some ''rc''\<rparr>"

definition ws_percent :: weather_station where
  "ws_percent = auth ws_loaded (Some ''id'') (Some ''secret'') (Some ''user'') (Some ''p%w'')"

definition w_tokens_only :: world where
  "w_tokens_only = w0\<lparr>files := [''rc'' \<mapsto>
                \<lparr>defaults = Map.empty, sections = [''netatmo/tokens'' \<mapsto> tokens0]\<rparr>]\<rparr>"

subsection \<open>Station directory\<close>

text \<open>The loop of \<^verbatim>\<open>stationByName\<close>, on the identifier after the default is applied.\<close>

fun station_loop ::
  "(string \<Rightarrow> string) \<Rightarrow> string option \<Rightarrow> station list \<Rightarrow> station option" where
  "station_loop lower station [] = None"
| "station_loop lower station (i # rest) =
     (case station of
        None \<Rightarrow> Some i
      | Some s \<Rightarrow>
          if s = [] then Some i
          else if station_name i = s then Some i
          else if lower (entry_id i) = lower s then Some i
          else station_loop lower station rest)"

definition stationByName ::
  "env \<Rightarrow> weather_station \<Rightarrow> string option \<Rightarrow> station option" where
  "stationByName E ws station =
     (case devices ws of
        None \<Rightarrow> None
      | Some devs \<Rightarrow>
          station_loop (str_lower E)
            (if station = None \<or> station = Some [] then default_station ws else station) devs)"

fun module_loop :: "string \<Rightarrow> module list \<Rightarrow> module option" where
  "module_loop m [] = None"
| "module_loop m (md # rest) =
     (if mod_name md = m then Some md
      else if entry_id md = m then Some md
      else module_loop m rest)"

text \<open>
  \<^verbatim>\<open>moduleByName\<close> returns the station itself (\<open>Inl\<close>) or one of its modules
  (\<open>Inr\<close>).
\<close>

definition moduleByName ::
  "env \<Rightarrow> weather_station \<Rightarrow> string \<Rightarrow> string option \<Rightarrow> (station + module) option" where
  "moduleByName E ws m station =
     (case stationByName E ws station of
        None \<Rightarrow> None
      | Some s \<Rightarrow>
          if mod_name s = m then Some (Inl s)
          else if entry_id s = m then Some (Inl s)
          else map_option Inr (module_loop m (modules s)))"


definition md_outdoor :: module where
  "md_outdoor = \<lparr>entry_id = ''02:00:00:00:0a:10'', mod_name = ''Outdoor'',
                  data_type = [''Temperature'', ''Humidity'']\<rparr>"

definition st_home :: station where
  "st_home = \<lparr>entry_id = ''70:ee:50:00:0a:10'', mod_name = ''Indoor'',
               data_type = [''Temperature'', ''CO2'', ''Humidity'', ''Noise'', ''Pressure''],
               station_name = ''Home'', modules = [md_outdoor]\<rparr>"

definition ws_dir :: weather_station where
  "ws_dir = blank\<lparr>devices := Some [st_home]\<rparr>"

subsection \<open>getMeasure\<close>

fun join :: "string \<Rightarrow> string list \<Rightarrow> string" where
  "join sep [] = []"
| "join sep [x] = x"
| "join sep (x # y # r) = x @ sep @ join sep (y # r)"

text \<open>
  \<^verbatim>\<open>getMeasure\<close> with the arguments its callers pass (\<^verbatim>\<open>date_end\<close>, \<^verbatim>\<open>limit\<close>,
  \<^verbatim>\<open>optimize\<close> and \<^verbatim>\<open>real_time\<close> keep their defaults and add nothing that varies to
  the request).  The result is the value of \<^verbatim>\<open>_postRequest\<close>; \<open>Null\<close> is also the
  \<^verbatim>\<open>None\<close> returned when there is no token.  Subscripting the \<^verbatim>\<open>None\<close> of a failed
  lookup is a \<open>TypeError\<close>.
\<close>

text \<open>The two lookups inside \<^verbatim>\<open>getMeasure\<close>: the device id and the list of types.\<close>

definition measure_device :: "env \<Rightarrow> weather_station \<Rightarrow> string option \<Rightarrow> pyerror + string" where
  "measure_device E ws device_id =
     (case device_id of
        Some d \<Rightarrow> Inr d
      | None \<Rightarrow> (case stationByName E ws None of
                   None \<Rightarrow> Inl TypeError
                 | Some s \<Rightarrow> Inr (entry_id s)))"

definition measure_type ::
  "env \<Rightarrow> weather_station \<Rightarrow> string \<Rightarrow> string option \<Rightarrow> string \<Rightarrow> pyerror + string" where
  "measure_type E ws mtype module_id dev =
     (if mtype = ''*''
      then (case module_id of
              None \<Rightarrow> (case stationByName E ws (Some dev) of
                         None \<Rightarrow> Inl TypeError
                       | Some s \<Rightarrow> Inr (join '','' (data_type s)))
            | Some m \<Rightarrow> (case moduleByName E ws m (Some dev) of
                           None \<Rightarrow> Inl TypeError
                         | Some (Inl s) \<Rightarrow> Inr (join '','' (data_type s))
                         | Some (Inr md) \<Rightarrow> Inr (join '','' (data_type md))))
      else Inr mtype)"

definition getMeasure ::
  "env \<Rightarrow> weather_station \<Rightarrow> world \<Rightarrow> string option \<Rightarrow> string \<Rightarrow> string
     \<Rightarrow> string option \<Rightarrow> nat option \<Rightarrow> (pyerror + reply) \<times> weather_station \<times> world" where
  "getMeasure E ws w device_id scale mtype module_id date_begin =
     (case accessToken E ws w of
        (Inl e, ws1, w1) \<Rightarrow> (Inl e, ws1, w1)
      | (Inr PyNone, ws1, w1) \<Rightarrow> (Inr Null, ws1, w1)
      | (Inr authToken, ws1, w1) \<Rightarrow>
          (case measure_device E ws1 device_id of
             Inl e \<Rightarrow> (Inl e, ws1, w1)
           | Inr dev \<Rightarrow>
               (case measure_type E ws1 mtype module_id dev of
                  Inl e \<Rightarrow> (Inl e, ws1, w1)
                | Inr ty \<Rightarrow>
                    (let (resp, w2) =
                           postRequest E
                             (Get_measure authToken dev
                                (if module_id = Some [] then None else module_id) scale ty
                                (if date_begin = Some 0 then None else date_begin)) w1
                     in case resp of
                          Raises \<Rightarrow> (Inl TransportError, ws1, w2)
                        | _ \<Rightarrow> (Inr resp, ws1, w2)))))"

subsection \<open>The last timestamp of a CSV file\<close>

definition digit_char :: "nat \<Rightarrow> char" where
  "digit_char d = char_of (48 + d)"

text \<open>\<^verbatim>\<open>str\<close> of a non-negative integer.\<close>

fun str_nat :: "nat \<Rightarrow> string" where
  "str_nat n =
     (if n < 10 then [digit_char n] else str_nat (n div 10) @ [digit_char (n mod 10)])"

declare str_nat.simps [simp del]

definition is_digit :: "char \<Rightarrow> bool" where
  "is_digit c = (CHR ''0'' \<le> c \<and> c \<le> CHR ''9'')"

definition digit_val :: "char \<Rightarrow> nat" where
  "digit_val c = of_char c - 48"

text \<open>\<^verbatim>\<open>str.isnumeric\<close> and \<^verbatim>\<open>int\<close> on a string of ASCII characters.\<close>

definition isnumeric :: "string \<Rightarrow> bool" where
  "isnumeric t = (t \<noteq> [] \<and> list_all is_digit t)"

definition int_of :: "string \<Rightarrow> nat" where
  "int_of t = foldl (\<lambda>n c. 10 * n + digit_val c) 0 t"

definition is_ascii :: "char \<Rightarrow> bool" where
  "is_ascii c = (of_char c < (128::nat))"

definition newline :: char where
  "newline = CHR 0x0A"

text \<open>\<^verbatim>\<open>readlines\<close> of a binary file: every line keeps its line feed.\<close>

fun readlines :: "string \<Rightarrow> string list" where
  "readlines [] = []"
| "readlines (c # cs) =
     (if c = newline then [c] # readlines cs
      else (case readlines cs of [] \<Rightarrow> [[c]] | l # ls \<Rightarrow> (c # l) # ls))"

definition last_timestamp :: "world \<Rightarrow> string \<Rightarrow> pyerror + nat" where
  "last_timestamp w filename =
     (case csv_files w filename of
        None \<Rightarrow> Inr 0
      | Some content \<Rightarrow>
          (let taille = min (length content) 100 in
           if taille \<noteq> 0
           then (let lst = last (readlines (drop (length content - taille) content)) in
                 if \<not> list_all is_ascii lst then Inl UnicodeDecodeError
                 else (let t = (if CHR '';'' \<in> set lst
                                then takeWhile (\<lambda>c. c \<noteq> CHR '';'') lst
                                else butlast lst)
                       in if isnumeric t then Inr (int_of t) else Inr 0))
           else Inr 0))"

subsection \<open>dl_csv\<close>

definition dquote :: char where
  "dquote = CHR 0x22"

text \<open>
  The writer has delimiter \<^verbatim>\<open>;\<close>, quote character \<^verbatim>\<open>"\<close> and quotes every field that
  is not a number.
\<close>

definition quote_field :: "string \<Rightarrow> string" where
  "quote_field s =
     dquote # concat (map (\<lambda>c. if c = dquote then [c, c] else [c]) s) @ [dquote]"

definition writerow :: "string list \<Rightarrow> string" where
  "writerow cells = join '';'' cells @ [newline]"

definition csv_header :: "string list \<Rightarrow> string" where
  "csv_header field_names = writerow (map quote_field (''Timestamp'' # ''DateTime'' # field_names))"

definition csv_row :: "env \<Rightarrow> nat \<times> string list \<Rightarrow> string" where
  "csv_row E r = writerow (str_nat (fst r) # quote_field (strftime E (fst r)) # snd r)"

definition content_of :: "world \<Rightarrow> string \<Rightarrow> string" where
  "content_of w filename = (case csv_files w filename of None \<Rightarrow> [] | Some c \<Rightarrow> c)"

definition append_file :: "world \<Rightarrow> string \<Rightarrow> string \<Rightarrow> world" where
  "append_file w filename text =
     w\<lparr>csv_files := (csv_files w)(filename \<mapsto> content_of w filename @ text)\<rparr>"

text \<open>The \<^verbatim>\<open>for\<close> loop over the sorted items of one page.\<close>

fun write_rows :: "env \<Rightarrow> string \<Rightarrow> page \<Rightarrow> nat \<Rightarrow> world \<Rightarrow> nat \<times> world" where
  "write_rows E filename [] start w = (start, w)"
| "write_rows E filename (r # rest) start w =
     write_rows E filename rest (if start < fst r then fst r else start)
       (append_file w filename (csv_row E r))"

text \<open>
  How a run ends: one of the three \<^verbatim>\<open>break\<close>s, an exception, or the process is
  stopped from outside before the next request (the fuel runs out).
\<close>

datatype outcome = Status_not_ok | Empty_page | Window_reached | Crashed pyerror | Interrupted

text \<open>
  The items are sorted as Python sorts them: by their keys, which are strings.  The
  second component of the result lists the rows handed to the writer, in order.
\<close>

fun dl_loop ::
  "env \<Rightarrow> string \<Rightarrow> string option \<Rightarrow> string option \<Rightarrow> string list \<Rightarrow> nat option
     \<Rightarrow> nat \<Rightarrow> nat \<Rightarrow> weather_station \<Rightarrow> world
     \<Rightarrow> outcome \<times> page \<times> weather_station \<times> world" where
  "dl_loop E filename device_id module_id field_names date_end 0 start ws w =
     (Interrupted, [], ws, w)"
| "dl_loop E filename device_id module_id field_names date_end (Suc fuel) start ws w =
     (case getMeasure E ws w device_id ''max'' (join '','' field_names) module_id (Some start) of
        (Inl e, ws1, w1) \<Rightarrow> (Crashed e, [], ws1, w1)
      | (Inr v, ws1, w1) \<Rightarrow>
          (case v of
             Null \<Rightarrow> (Crashed TypeError, [], ws1, w1)
           | Measure_obj status body \<Rightarrow>
               if status \<noteq> ''ok'' then (Status_not_ok, [], ws1, w1)
               else if length body = 0 then (Empty_page, [], ws1, w1)
               else
                 (let items = sort_key (\<lambda>r. str_nat (fst r)) body;
                      (start1, w2) = write_rows E filename items start w1
                  in case date_end of
                       None \<Rightarrow> (Crashed TypeError, items, ws1, w2)
                     | Some e \<Rightarrow>
                         if start1 \<ge> e then (Window_reached, items, ws1, w2)
                         else (case dl_loop E filename device_id module_id field_names date_end
                                      fuel (start1 + 1) ws1 w2 of
                                 (out, rows, ws2, w3) \<Rightarrow> (out, items @ rows, ws2, w3)))
           | _ \<Rightarrow> (Status_not_ok, [], ws1, w1)))"

text \<open>The resume point: the first two statements of \<^verbatim>\<open>dl_csv\<close>.\<close>

definition resume_start :: "world \<Rightarrow> string \<Rightarrow> pyerror + nat" where
  "resume_start w filename =
     (case last_timestamp w filename of
        Inl e \<Rightarrow> Inl e
      | Inr start \<Rightarrow> Inr (if start > 0 then start + 1 else start))"

text \<open>
  Opening the file for appending creates it; the header is written when the file is
  empty.
\<close>

definition open_append :: "world \<Rightarrow> string \<Rightarrow> string list \<Rightarrow> world" where
  "open_append w filename field_names =
     w\<lparr>csv_files := (csv_files w)(filename \<mapsto>
          (if content_of w filename = [] then csv_header field_names else content_of w filename))\<rparr>"

definition dl_csv ::
  "env \<Rightarrow> nat \<Rightarrow> weather_station \<Rightarrow> world \<Rightarrow> string \<Rightarrow> string option \<Rightarrow> string option
     \<Rightarrow> string list \<Rightarrow> nat option \<Rightarrow> outcome \<times> page \<times> weather_station \<times> world" where
  "dl_csv E fuel ws w filename device_id module_id field_names date_end =
     (case resume_start w filename of
        Inl e \<Rightarrow> (Crashed e, [], ws, w)
      | Inr start \<Rightarrow>
          dl_loop E filename device_id module_id field_names date_end fuel start ws
            (open_append w filename field_names))"

subsection \<open>The sink as a list of timestamps\<close>

text \<open>
  For the statements about the sink: the first field of a line (up to the first
  \<^verbatim>\<open>;\<close>, the line feed left out) and the timestamps of the lines that have a numeric
  first field.  The resume point in the words of the specification: the timestamp of
  the last row plus one when that row's first field is numeric, otherwise 0.
\<close>

definition strip_nl :: "string \<Rightarrow> string" where
  "strip_nl line = (if line \<noteq> [] \<and> last line = newline then butlast line else line)"

definition first_field :: "string \<Rightarrow> string" where
  "first_field line = takeWhile (\<lambda>c. c \<noteq> CHR '';'') (strip_nl line)"

definition line_ts :: "string \<Rightarrow> nat option" where
  "line_ts line = (if isnumeric (first_field line) then Some (int_of (first_field line)) else None)"

definition sink_timestamps :: "string \<Rightarrow> nat list" where
  "sink_timestamps content = List.map_filter line_ts (readlines content)"

definition resumeTimestamp_spec :: "string option \<Rightarrow> nat" where
  "resumeTimestamp_spec sink =
     (case sink of
        None \<Rightarrow> 0
      | Some content \<Rightarrow>
          if content = [] then 0
          else (case line_ts (last (readlines content)) of
                  Some t \<Rightarrow> t + 1
                | None \<Rightarrow> 0))"

subsection \<open>An upstream and a clock for the examples\<close>

text \<open>
  A server that holds a list of measurements and answers a request with the first
  \<open>n\<close> of them at or after \<^verbatim>\<open>date_begin\<close> (from the start when the request has none);
  a date text that is right for the first day of the epoch and for 14 July 2017 (UTC).
\<close>

definition two_digits :: "nat \<Rightarrow> string" where
  "two_digits n = [digit_char (n div 10), digit_char (n mod 10)]"

definition hms :: "nat \<Rightarrow> string" where
  "hms s = two_digits (s div 3600) @ '':'' @ two_digits (s div 60 mod 60) @ '':''
             @ two_digits (s mod 60)"

definition utc_text :: "nat \<Rightarrow> string" where
  "utc_text t =
     (if t < 86400 then ''1970-01-01 '' @ hms t
      else if 1499990400 \<le> t \<and> t < 1500076800 then ''2017-07-14 '' @ hms (t - 1499990400)
      else ''0000-00-00 00:00:00'')"

definition page_from :: "page \<Rightarrow> nat \<Rightarrow> nat option \<Rightarrow> page" where
  "page_from measurements n date_begin =
     take n (filter (\<lambda>r. (case date_begin of None \<Rightarrow> 0 | Some b \<Rightarrow> b) \<le> fst r) measurements)"

definition server :: "page \<Rightarrow> nat \<Rightarrow> env" where
  "server measurements n =
     \<lparr>net = (\<lambda>k req. case req of
                Get_measure _ _ _ _ _ date_begin \<Rightarrow>
                  Measure_obj ''ok'' (page_from measurements n date_begin)
              | _ \<Rightarrow> Other_obj),
      clock = (\<lambda>k. 1000),
      isoformat = (\<lambda>t. None),
      strptime = (\<lambda>s. None),
      strftime = utc_text,
      interpolate = (\<lambda>c sec v. Some v),
      reparse = Inr,
      str_lower = ascii_lower\<rparr>"

definition ws_token :: weather_station where
  "ws_token = blank\<lparr>client_id := Some ''id'', client_secret := Some ''secret'',
                    username := Some ''user'', password := Some ''pw'',
                    access_token := Some ''tok'', refresh_token := Some ''ref'',
                    expiration := Some 100000\<rparr>"

definition sink_file :: "string \<Rightarrow> world" where
  "sink_file content = w0\<lparr>csv_files := [''netatmo_station.csv'' \<mapsto> content]\<rparr>"

definition sink_2017 :: string where
  "sink_2017 = csv_header [''Temperature''] @ csv_row (server [] 2) (1500000000, [''21.5''])"

definition sink_zero :: string where
  "sink_zero = csv_header [''Temperature''] @ csv_row (server [] 2) (0, [''1.0''])"

definition long_cells :: "string list" where
  "long_cells = [''21.5'', ''480'', ''45'', ''38'', ''1013.2'', ''0.1'', ''12'', ''270'', ''20'',
                 ''265'', ''19.8'', ''23.1'', ''44'', ''47'', ''1.5'', ''1.5'', ''1.5'']"

definition sink_long :: string where
  "sink_long = csv_row (server [] 2) (1500000000, long_cells)"

definition page_1970 :: page where
  "page_1970 = [(50, [''1.0'']), (110, [''1.1'']), (170, [''1.2'']), (3650, [''1.3''])]"

definition page_2017 :: page where
  "page_2017 = [(1500000000, [''21.5'']), (1500000060, [''21.6'']), (1500000120, [''21.7'']),
                (1500003600, [''21.9''])]"

definition page_zero :: page where
  "page_zero = [(0, [''1.0''])]"

definition export_twice ::
  "env \<Rightarrow> nat \<Rightarrow> weather_station \<Rightarrow> world \<Rightarrow> string \<Rightarrow> string option \<Rightarrow> string option
     \<Rightarrow> string list \<Rightarrow> nat option \<Rightarrow> outcome \<times> page \<times> weather_station \<times> world" where
  "export_twice E fuel ws w filename device_id module_id field_names date_end =
     (case dl_csv E fuel ws w filename device_id module_id field_names date_end of
        (out, rows, ws1, w1) \<Rightarrow>
          dl_csv E fuel ws1 w1 filename device_id module_id field_names date_end)"

subsection \<open>What the statements about the exporter assume\<close>

text \<open>
  A row can be read back by \<^verbatim>\<open>last_timestamp\<close> when its line has at most 100 ASCII
  bytes and neither its date text nor its values contain a line feed; the same for the
  header.
\<close>

definition row_ok :: "env \<Rightarrow> nat \<times> string list \<Rightarrow> bool" where
  "row_ok E r =
     (length (csv_row E r) \<le> 100 \<and> list_all is_ascii (csv_row E r)
      \<and> newline \<notin> set (strftime E (fst r)) \<and> list_all (\<lambda>cell. newline \<notin> set cell) (snd r))"

definition header_ok :: "string list \<Rightarrow> bool" where
  "header_ok field_names =
     (length (csv_header field_names) \<le> 100 \<and> list_all is_ascii (csv_header field_names)
      \<and> list_all (\<lambda>f. newline \<notin> set f) field_names)"

text \<open>
  A page answers its request when its keys are distinct, positive and not before the
  \<^verbatim>\<open>date_begin\<close> of the request, and its rows can be read back.  The keys of one page
  are taken to have the same number of digits: the order in which a page with keys of
  different lengths is written is not described here.
\<close>

definition page_ok :: "env \<Rightarrow> nat option \<Rightarrow> page \<Rightarrow> bool" where
  "page_ok E date_begin body =
     (distinct (map fst body)
      \<and> list_all (\<lambda>r. 0 < fst r
                       \<and> (case date_begin of None \<Rightarrow> True | Some b \<Rightarrow> b \<le> fst r)
                       \<and> row_ok E r
                       \<and> list_all (\<lambda>r'. length (str_nat (fst r)) = length (str_nat (fst r'))) body)
           body)"

definition honest :: "env \<Rightarrow> bool" where
  "honest E =
     (\<forall>k tok dev md scale ty date_begin status body.
        net E k (Get_measure tok dev md scale ty date_begin) = Measure_obj status body
          \<longrightarrow> page_ok E date_begin body)"

text \<open>
  A sink in order: it is empty or ends with a whole line that \<^verbatim>\<open>last_timestamp\<close> can
  read; its timestamps are positive and strictly increasing; and if it has any
  timestamp, its last line carries the last one.
\<close>

definition sink_ok :: "string \<Rightarrow> bool" where
  "sink_ok content =
     ((content \<noteq> [] \<longrightarrow>
         last content = newline \<and> length (last (readlines content)) \<le> 100
         \<and> list_all is_ascii (last (readlines content)))
      \<and> sorted_wrt (<) (sink_timestamps content)
      \<and> list_all (\<lambda>t. 0 < t) (sink_timestamps content)
      \<and> (sink_timestamps content \<noteq> [] \<longrightarrow>
            line_ts (last (readlines content)) = Some (last (sink_timestamps content))))"

text \<open>The sink after a run that found \<open>content\<close> and wrote \<open>rows\<close>.\<close>

definition sink_after :: "env \<Rightarrow> string \<Rightarrow> string list \<Rightarrow> page \<Rightarrow> string" where
  "sink_after E content field_names rows =
     (if content = [] then csv_header field_names else content) @ concat (map (csv_row E) rows)"

subsection \<open>Example runs of the exporter\<close>

text \<open>A server that answers every request with the same page, whatever \<^verbatim>\<open>date_begin\<close>.\<close>

definition repeating_server :: "page \<Rightarrow> env" where
  "repeating_server body =
     (server body 0)\<lparr>net := (\<lambda>k req. case req of
                                 Get_measure _ _ _ _ _ _ \<Rightarrow> Measure_obj ''ok'' body
                               | _ \<Rightarrow> Other_obj)\<rparr>"

definition long_fields :: "string list" where
  "long_fields = [''Temperature'', ''CO2'', ''Humidity'', ''Noise'', ''Pressure'', ''Rain'',
                  ''WindStrength'', ''WindAngle'', ''GustStrength'', ''GustAngle'',
                  ''min_temp'', ''max_temp'', ''min_hum'', ''max_hum'', ''sum_rain'',
                  ''min_rain'', ''max_rain'']"

text \<open>
  Runs of \<^verbatim>\<open>dl_csv\<close> with a token that stays valid.  The scenario with pages
  \<open>{T0, T0 + 60}\<close> and \<open>{T0 + 120, T0 + 3600}\<close> and the window end \<open>T0 + 3600\<close>, on an
  absent sink, for \<open>T0 = 50\<close> and for \<open>T0 = 1500000000\<close>; the second export on the sink
  that the latter run leaves when it is stopped after three rows; an export and its
  repetition for a measurement with timestamp 0; an export on a sink whose only row has
  101 bytes; and an export from the server that repeats its page.
\<close>

definition export_1970 :: "outcome \<times> page \<times> weather_station \<times> world" where
  "export_1970 =
     dl_csv (server page_1970 2) 5 ws_token w0 ''netatmo_station.csv''
       (Some ''70:ee:50:00:0a:10'') None [''Temperature''] (Some 3650)"

definition export_2017 :: "outcome \<times> page \<times> weather_station \<times> world" where
  "export_2017 =
     dl_csv (server page_2017 2) 5 ws_token w0 ''netatmo_station.csv''
       (Some ''70:ee:50:00:0a:10'') None [''Temperature''] (Some 1500003600)"

definition sink_cut_2017 :: world where
  "sink_cut_2017 =
     sink_file (sink_after (server page_2017 2) [] [''Temperature'']
                  (take 3 (fst (snd export_2017))))"

definition export_2017_again :: "outcome \<times> page \<times> weather_station \<times> world" where
  "export_2017_again =
     dl_csv (server page_2017 2) 5 ws_token sink_cut_2017 ''netatmo_station.csv''
       (Some ''70:ee:50:00:0a:10'') None [''Temperature''] (Some 1500003600)"

definition export_zero :: "outcome \<times> page \<times> weather_station \<times> world" where
  "export_zero =
     dl_csv (server page_zero 1) 5 ws_token w0 ''netatmo_station.csv''
       (Some ''70:ee:50:00:0a:10'') None [''Temperature''] (Some 100)"

definition export_zero_again :: "outcome \<times> page \<times> weather_station \<times> world" where
  "export_zero_again =
     export_twice (server page_zero 1) 5 ws_token w0 ''netatmo_station.csv''
       (Some ''70:ee:50:00:0a:10'') None [''Temperature''] (Some 100)"

definition export_long :: "outcome \<times> page \<times> weather_station \<times> world" where
  "export_long =
     dl_csv (server [(1500000000, long_cells)] 1) 5 ws_token (sink_file sink_long)
       ''netatmo_station.csv'' (Some ''70:ee:50:00:0a:10'') None long_fields (Some 1500000000)"

definition export_repeat :: "outcome \<times> page \<times> weather_station \<times> world" where
  "export_repeat =
     dl_csv (repeating_server [(1500000000, [''21.5''])]) 5 ws_token w0 ''netatmo_station.csv''
       (Some ''70:ee:50:00:0a:10'') None [''Temperature''] (Some 1500000001)"

section \<open>Token manager: proofs\<close>

lemma config_set_sections:
  "config_set c sec opt v = Inr c' \<Longrightarrow> sec' \<noteq> sec \<Longrightarrow> sections c' sec' = sections c sec'"
  by (auto simp: config_set_def split: sum.splits option.splits if_splits)

lemma config_set_has:
  "config_set c sec opt v = Inr c' \<Longrightarrow> sections c' sec \<noteq> None"
  by (auto simp: config_set_def split: sum.splits option.splits if_splits)

lemma config_set_value:
  "config_set c sec opt v = Inr c' \<Longrightarrow>
     \<exists>d d'. sections c sec = Some d \<and> sections c' sec = Some d' \<and> d' = d(opt \<mapsto> v)"
  by (auto simp: config_set_def before_set_def split: sum.splits option.splits if_splits)

lemma remove_option_sections:
  "remove_option c sec opt = Inr c' \<Longrightarrow> sec' \<noteq> sec \<Longrightarrow> sections c' sec' = sections c sec'"
  by (auto simp: remove_option_def split: option.splits)

lemma set_all_sections:
  "set_all c sec kvs = Inr c' \<Longrightarrow> sec' \<noteq> sec \<Longrightarrow> sections c' sec' = sections c sec'"
proof (induction kvs arbitrary: c)
  case Nil
  then show ?case by simp
next
  case (Cons kv kvs)
  obtain k v where kv: "kv = (k, v)" by (cases kv)
  from Cons.prems(1) kv obtain c1 where
    s1: "config_set c sec k v = Inr c1" and s2: "set_all c1 sec kvs = Inr c'"
    by (auto split: sum.splits)
  from Cons.IH [OF s2 Cons.prems(2)] config_set_sections [OF s1 Cons.prems(2)]
  show ?case by simp
qed

lemma config_set_settable:
  assumes "settable v" and "sections c sec = Some d"
  shows "config_set c sec opt v = Inr (c\<lparr>sections := (sections c)(sec \<mapsto> d(opt \<mapsto> v))\<rparr>)"
  using assms by (auto simp: config_set_def settable_def)

lemma config_set_rejected:
  "\<not> settable v \<Longrightarrow> config_set c sec opt v = Inl ValueError"
  by (auto simp: config_set_def settable_def before_set_def)

lemma saveTokens_none: "rc_file ws = None \<Longrightarrow> saveTokens E ws w = Inr w"
  by (simp add: saveTokens_def)

lemma saveTokens_world:
  assumes "saveTokens E ws w = Inr w'"
  shows "sent w' = sent w \<and> ticks w' = ticks w \<and> stdout w' = stdout w"
  using assms
  by (auto simp: saveTokens_def write_config_def split: option.splits sum.splits if_splits)

lemma setitem3:
  assumes "setitem c sec [(k1, v1), (k2, v2), (k3, v3)] = Inr c'"
  shows "sections c' sec = Some (Map.empty(k1 \<mapsto> v1, k2 \<mapsto> v2, k3 \<mapsto> v3))
         \<and> (\<forall>sec'. sec' \<noteq> sec \<longrightarrow> sections c' sec' = sections c sec') \<and> defaults c' = defaults c"
  using assms
  by (auto simp: setitem_def config_set_def add_section_def before_set_def
           split: sum.splits option.splits if_splits)

lemma saveTokens_file:
  assumes "saveTokens E ws w = Inr w'" and "rc_file ws = Some rc"
  shows "\<exists>c' c0 a r e st. files w' rc = Some c' \<and> read_config E w rc = Inr c0
           \<and> access_token ws = Some a \<and> refresh_token ws = Some r
           \<and> expiration ws = Some e \<and> isoformat E e = Some st
           \<and> sections c' ''netatmo/tokens'' =
                Some (Map.empty(''access_token'' \<mapsto> a, ''refresh_token'' \<mapsto> r, ''expiration'' \<mapsto> st))
           \<and> (\<forall>sec. sec \<noteq> ''netatmo/tokens'' \<longrightarrow> sections c' sec = sections c0 sec)
           \<and> (\<forall>f. f \<noteq> rc \<longrightarrow> files w' f = files w f)"
proof -
  from assms obtain c0 a r e st c' where
    rd: "read_config E w rc = Inr c0"
    and f: "access_token ws = Some a" "refresh_token ws = Some r" "expiration ws = Some e"
       "isoformat E e = Some st"
    and c': "setitem c0 ''netatmo/tokens''
               [(''access_token'', a), (''refresh_token'', r), (''expiration'', st)] = Inr c'"
    and w': "write_config w rc c' = Inr w'"
    by (auto simp: saveTokens_def split: option.splits sum.splits)
  from w' have "w' = w\<lparr>files := (files w)(rc \<mapsto> c')\<rparr>"
    by (auto simp: write_config_def split: if_splits)
  with setitem3 [OF c'] f rd show ?thesis by simp
qed

lemma store_reply_Token:
  assumes "store_reply E resp ws w = (Inr (Token tok), ws1, w1)"
  shows "\<exists>r x. resp = Token_obj tok r x
           \<and> ws1 = ws\<lparr>access_token := Some tok, refresh_token := Some r,
                      expiration := Some (x + clock E (ticks w))\<rparr>
           \<and> saveTokens E ws1 (w\<lparr>ticks := Suc (ticks w)\<rparr>) = Inr w1"
  using assms
  by (cases resp) (auto simp: store_reply_def time_time_def Let_def split: sum.splits)

lemma accessToken_Token:
  assumes "accessToken E ws w = (Inr (Token tok), ws1, w1)"
  shows "access_token ws1 = Some tok \<and> expiration ws1 \<noteq> None
         \<and> client_id ws1 = client_id ws \<and> client_secret ws1 = client_secret ws
         \<and> username ws1 = username ws \<and> password ws1 = password ws
         \<and> rc_file ws1 = rc_file ws
         \<and> client_id ws \<noteq> None \<and> client_secret ws \<noteq> None"
  using assms
  by (auto simp: accessToken_def postRequest_def time_time_def Let_def
           split: option.splits if_splits prod.splits dest!: store_reply_Token)

lemma accessToken_valid:
  assumes "client_id ws = Some cid" and "client_secret ws = Some secret"
      and "access_token ws = Some tok" and "expiration ws = Some e"
      and "clock E (ticks w) < e"
  shows "accessToken E ws w = (Inr (Token tok), ws, w\<lparr>ticks := Suc (ticks w)\<rparr>)"
  using assms by (simp add: accessToken_def time_time_def)

text \<open>
  Claim C3.  When a call of \<^verbatim>\<open>accessToken\<close> has returned a token and the clock read
  by a second call is still before the recorded expiration, the second call returns the
  same token, leaves the object as it is and sends nothing: the world only differs by
  the one reading of the clock.
\<close>

theorem accessToken_second_call:
  assumes "accessToken E ws w = (Inr (Token tok), ws1, w1)"
      and "expiration ws1 = Some e" and "clock E (ticks w2) < e"
  shows "accessToken E ws1 w2 = (Inr (Token tok), ws1, w2\<lparr>ticks := Suc (ticks w2)\<rparr>)
         \<and> sent (snd (snd (accessToken E ws1 w2))) = sent w2"
proof -
  from accessToken_Token [OF assms(1)] obtain cid secret where
    "client_id ws1 = Some cid" "client_secret ws1 = Some secret" "access_token ws1 = Some tok"
    by auto
  from accessToken_valid [OF this assms(2,3)] show ?thesis by simp
qed

text \<open>
  Claim C4, as the code has it.  A credential is missing when it is \<^verbatim>\<open>None\<close>.  When
  the client id or the client secret is missing, or when no access token is held and
  the user name or the password is missing, \<^verbatim>\<open>accessToken\<close> returns \<^verbatim>\<open>None\<close> with
  the object and the world unchanged: no request is sent.
\<close>

theorem accessToken_unavailable:
  assumes "client_id ws = None \<or> client_secret ws = None
           \<or> (access_token ws = None \<and> (username ws = None \<or> password ws = None))"
  shows "accessToken E ws w = (Inr PyNone, ws, w)"
  using assms by (auto simp: accessToken_def split: option.splits)

lemma accessToken_refresh_error:
  assumes "client_id ws = Some cid" and "client_secret ws = Some secret"
      and "access_token ws = Some tok" and "expiration ws = Some e"
      and "refresh_token ws = Some r"
      and "e \<le> clock E (ticks w)"
      and "net E (length (sent w)) (Refresh_grant r cid secret) = Error_obj err"
  shows "accessToken E ws w =
           (Inr PyNone, ws,
            w\<lparr>sent := sent w @ [Refresh_grant r cid secret], ticks := Suc (ticks w),
              stdout := stdout w @ [''error '' @ err @ '' '' @ AUTH_REQ]\<rparr>)"
  using assms
  by (simp add: accessToken_def time_time_def postRequest_def store_reply_def print_def)

lemma store_reply_sent:
  "store_reply E resp ws w = (res, ws1, w1) \<Longrightarrow> sent w1 = sent w"
  by (cases resp)
     (auto simp: store_reply_def time_time_def print_def Let_def
           split: sum.splits dest: saveTokens_world)

lemma accessToken_refresh_request:
  assumes "client_id ws = Some cid" and "client_secret ws = Some secret"
      and "access_token ws = Some tok" and "expiration ws = Some e"
      and "refresh_token ws = Some r"
      and "e \<le> clock E (ticks w)"
  shows "sent (snd (snd (accessToken E ws w))) = sent w @ [Refresh_grant r cid secret]"
proof -
  obtain res ws1 w1 where
    sr: "store_reply E (net E (length (sent w)) (Refresh_grant r cid secret)) ws
           (w\<lparr>ticks := Suc (ticks w), sent := sent w @ [Refresh_grant r cid secret]\<rparr>) = (res, ws1, w1)"
    by (metis prod_cases3)
  from assms sr have "accessToken E ws w = (res, ws1, w1)"
    by (simp add: accessToken_def time_time_def postRequest_def)
  with store_reply_sent [OF sr] show ?thesis by simp
qed

text \<open>
  Claim C5, as the code has it.  When the token has expired and the server answers the
  refresh grant with an error object, \<^verbatim>\<open>accessToken\<close> prints the error, returns
  \<^verbatim>\<open>None\<close> and leaves the object unchanged: the old token, refresh token and expiration
  stay.  Every later access at a time past that expiration therefore sends the same
  refresh grant again.
\<close>

theorem refresh_error_retries_refresh:
  assumes "client_id ws = Some cid" and "client_secret ws = Some secret"
      and "access_token ws = Some tok" and "expiration ws = Some e"
      and "refresh_token ws = Some r"
      and "e \<le> clock E (ticks w)"
      and "net E (length (sent w)) (Refresh_grant r cid secret) = Error_obj err"
  shows "accessToken E ws w =
           (Inr PyNone, ws,
            w\<lparr>sent := sent w @ [Refresh_grant r cid secret], ticks := Suc (ticks w),
              stdout := stdout w @ [''error '' @ err @ '' '' @ AUTH_REQ]\<rparr>)
         \<and> (\<forall>w2. e \<le> clock E (ticks w2) \<longrightarrow>
               sent (snd (snd (accessToken E ws w2))) = sent w2 @ [Refresh_grant r cid secret])"
  using accessToken_refresh_error [OF assms] accessToken_refresh_request [OF assms(1-5)]
  by blast

lemma accessToken_sent:
  assumes "accessToken E ws w = (res, ws1, w1)"
  shows "sent w1 = sent w \<or> (\<exists>req. is_grant req \<and> sent w1 = sent w @ [req])"
  using assms
  by (auto simp: accessToken_def postRequest_def time_time_def is_grant_def Let_def
           split: option.splits if_splits prod.splits dest!: store_reply_sent)

lemma accessToken_grant:
  assumes "accessToken E ws w = (Inr (Token tok), ws1, w1)" and "sent w1 \<noteq> sent w"
  shows "\<exists>req r x wp.
           grant_request ws = Some req
           \<and> net E (length (sent w)) req = Token_obj tok r x
           \<and> sent wp = sent w @ [req]
           \<and> ws1 = ws\<lparr>access_token := Some tok, refresh_token := Some r,
                      expiration := Some (x + clock E (ticks wp))\<rparr>
           \<and> saveTokens E ws1 (wp\<lparr>ticks := Suc (ticks wp)\<rparr>) = Inr w1"
proof -
  from assms(1) obtain cid secret where
    c: "client_id ws = Some cid" "client_secret ws = Some secret"
    by (auto simp: accessToken_def split: option.splits)
  show ?thesis
  proof (cases "access_token ws")
    case None
    with assms(1) c obtain user pass where
      u: "username ws = Some user" "password ws = Some pass"
      by (auto simp: accessToken_def split: option.splits)
    let ?req = "Password_grant cid secret user pass"
    let ?wp = "w\<lparr>sent := sent w @ [?req]\<rparr>"
    from assms(1) c None u
    have "store_reply E (net E (length (sent w)) ?req) ws ?wp = (Inr (Token tok), ws1, w1)"
      by (simp add: accessToken_def postRequest_def)
    from store_reply_Token [OF this] c None u show ?thesis
      by (auto simp: grant_request_def intro!: exI [of _ ?req] exI [of _ ?wp])
  next
    case (Some tok0)
    with assms c obtain e r where
      e: "expiration ws = Some e" "e \<le> clock E (ticks w)" "refresh_token ws = Some r"
      by (auto simp: accessToken_def time_time_def split: option.splits if_splits)
    let ?req = "Refresh_grant r cid secret"
    let ?wp = "w\<lparr>ticks := Suc (ticks w), sent := sent w @ [?req]\<rparr>"
    from assms(1) c Some e
    have "store_reply E (net E (length (sent w)) ?req) ws ?wp = (Inr (Token tok), ws1, w1)"
      by (simp add: accessToken_def postRequest_def time_time_def)
    from store_reply_Token [OF this] c Some e show ?thesis
      by (auto simp: grant_request_def intro!: exI [of _ ?req] exI [of _ ?wp])
  qed
qed

text \<open>
  Claim C8, as the code has it.  When the object has a configuration file and a call of
  \<^verbatim>\<open>accessToken\<close> that sent something returns a token, then that call sent exactly one
  request (the password grant, or the refresh grant with the stored refresh token); the
  token returned, the refresh token and the expiration (the lifetime in the reply added
  to the clock read after the request) are those of the reply to that request; and on
  return the token section written to the file holds exactly these three values.
\<close>

theorem grant_persisted:
  assumes "accessToken E ws w = (Inr (Token tok), ws1, w1)"
      and "sent w1 \<noteq> sent w"
      and "rc_file ws = Some rc"
  shows "\<exists>req r x st c.
           grant_request ws = Some req
           \<and> sent w1 = sent w @ [req]
           \<and> net E (length (sent w)) req = Token_obj tok r x
           \<and> ws1 = ws\<lparr>access_token := Some tok, refresh_token := Some r,
                      expiration := Some (x + clock E (ticks w1 - 1))\<rparr>
           \<and> isoformat E (x + clock E (ticks w1 - 1)) = Some st
           \<and> files w1 rc = Some c
           \<and> sections c ''netatmo/tokens'' =
                Some (Map.empty(''access_token'' \<mapsto> tok, ''refresh_token'' \<mapsto> r,
                                ''expiration'' \<mapsto> st))"
proof -
  from accessToken_grant [OF assms(1,2)] obtain req r x wp where
    g: "grant_request ws = Some req" "net E (length (sent w)) req = Token_obj tok r x"
       "sent wp = sent w @ [req]"
    and ws1: "ws1 = ws\<lparr>access_token := Some tok, refresh_token := Some r,
                       expiration := Some (x + clock E (ticks wp))\<rparr>"
    and sv: "saveTokens E ws1 (wp\<lparr>ticks := Suc (ticks wp)\<rparr>) = Inr w1"
    by blast
  from saveTokens_world [OF sv] have w1: "sent w1 = sent wp" "ticks w1 - 1 = ticks wp"
    by simp_all
  from ws1 assms(3) have rc: "rc_file ws1 = Some rc" by simp
  from saveTokens_file [OF sv rc] show ?thesis
  proof (elim exE conjE)
    fix c c0 a r' e st
    assume f: "files w1 rc = Some c" "access_token ws1 = Some a" "refresh_token ws1 = Some r'"
       "expiration ws1 = Some e" "isoformat E e = Some st"
       "sections c ''netatmo/tokens'' =
          Some (Map.empty(''access_token'' \<mapsto> a, ''refresh_token'' \<mapsto> r', ''expiration'' \<mapsto> st))"
    from f(2-4) ws1 have v: "a = tok" "r' = r" "e = x + clock E (ticks wp)" by simp_all
    have t: "sections c ''netatmo/tokens'' =
          Some (Map.empty(''access_token'' \<mapsto> tok, ''refresh_token'' \<mapsto> r, ''expiration'' \<mapsto> st))"
      using f(6) v by simp
    have i: "isoformat E (x + clock E (ticks w1 - 1)) = Some st"
      using f(5) v w1 by simp
    have s: "sent w1 = sent w @ [req]" using g(3) w1 by simp
    have o: "ws1 = ws\<lparr>access_token := Some tok, refresh_token := Some r,
                      expiration := Some (x + clock E (ticks w1 - 1))\<rparr>"
      using ws1 w1 by simp
    show ?thesis
      apply (rule exI [of _ req], rule exI [of _ r], rule exI [of _ x])
      apply (rule exI [of _ st], rule exI [of _ c])
      apply (intro conjI)
            apply (rule g(1))
           apply (rule s)
          apply (rule g(2))
         apply (rule o)
        apply (rule i)
       apply (rule f(1))
      apply (rule t)
      done
  qed
qed

text \<open>
  Claim C9, as the code has it.  \<^verbatim>\<open>saveTokens\<close> writes the token section and leaves
  the credentials section as it found it: after the write the file has the token
  section, and its credentials section is the one read from the file before (none, if
  the file had none or did not exist).
\<close>

theorem saveTokens_keeps_credentials:
  assumes "saveTokens E ws w = Inr w'" and "rc_file ws = Some rc"
  shows "\<exists>c' c0. files w' rc = Some c' \<and> read_config E w rc = Inr c0
           \<and> sections c' ''netatmo/tokens'' \<noteq> None
           \<and> sections c' ''netatmo'' = sections c0 ''netatmo''"
  using saveTokens_file [OF assms] by auto



text \<open>A rejected password stops \<^verbatim>\<open>saveCredentials\<close> before the file is opened.\<close>

lemma saveCredentials_rejected:
  assumes "rc_file ws = Some rc" and "read_config E w rc = Inr c0"
      and "settable (str_opt (client_id ws))" and "settable (str_opt (client_secret ws))"
      and "settable (str_opt (username ws))" and "\<not> settable (str_opt (password ws))"
  shows "saveCredentials E ws w = Inl ValueError"
proof -
  let ?c1 = "if \<not> has_section c0 ''netatmo'' then add_section c0 ''netatmo'' else c0"
  have s1: "\<exists>d. sections ?c1 ''netatmo'' = Some d"
    by (auto simp: has_section_def add_section_def)
  then obtain d where d: "sections ?c1 ''netatmo'' = Some d" by blast
  have "credentials_config ws c0 = Inl ValueError"
    unfolding credentials_config_def Let_def
    by (simp add: config_set_settable [OF assms(3) d] config_set_settable [OF assms(4)]
                  config_set_settable [OF assms(5)] config_set_rejected [OF assms(6)])
  with assms(1,2) show ?thesis by (simp add: saveCredentials_def)
qed

subsection \<open>Token manager: examples\<close>

lemmas example_defs =
  env0_def env1_def w0_def ws_dict_def ws_nouser_def ws_empty_user_def ws_token_nouser_def
  ws_expired_def ws_expired_rc_def ws_fresh_def ws_loaded_def ws_tokens_def ws_percent_def
  credentials0_def tokens0_def w_creds_def w_both_def w_tokens_only_def
  init_def the_ws_def blank_def auth_def

lemmas run_defs =
  accessToken_def store_reply_def postRequest_def time_time_def print_def saveTokens_def
  setitem_def add_section_def config_set_def before_set_def keycre_match_def
  read_config_def write_config_def empty_config_def AUTH_REQ_def
  loadCredentials_def loadTokens_def credentials_from_def tokens_from_def
  config_get_def has_option_def has_section_def
  saveCredentials_def credentials_config_def remove_section_def remove_option_def str_opt_def

text \<open>
  An instance: a password grant at time 1000 with a token valid for 10800 seconds, and a
  second access at time 1001.
\<close>

theorem accessToken_second_call_witness:
  "accessToken env0 ws_dict w0 =
     (Inr (Token ''tok1''),
      ws_dict\<lparr>access_token := Some ''tok1'', refresh_token := Some ''ref1'',
              expiration := Some 11800\<rparr>,
      w0\<lparr>sent := [Password_grant ''id'' ''secret'' ''user'' ''pw''], ticks := 1\<rparr>)
   \<and> accessToken env0
        (ws_dict\<lparr>access_token := Some ''tok1'', refresh_token := Some ''ref1'',
                 expiration := Some 11800\<rparr>)
        (w0\<lparr>sent := [Password_grant ''id'' ''secret'' ''user'' ''pw''], ticks := 1\<rparr>) =
     (Inr (Token ''tok1''),
      ws_dict\<lparr>access_token := Some ''tok1'', refresh_token := Some ''ref1'',
              expiration := Some 11800\<rparr>,
      w0\<lparr>sent := [Password_grant ''id'' ''secret'' ''user'' ''pw''], ticks := 2\<rparr>)"
proof -
  let ?ws1 = "ws_dict\<lparr>access_token := Some ''tok1'', refresh_token := Some ''ref1'',
              expiration := Some 11800\<rparr>"
  let ?w1 = "w0\<lparr>sent := [Password_grant ''id'' ''secret'' ''user'' ''pw''], ticks := 1\<rparr>"
  have h1: "accessToken env0 ws_dict w0 = (Inr (Token ''tok1''), ?ws1, ?w1)"
    by (simp add: example_defs run_defs)
  have h2: "expiration ?ws1 = Some 11800" by simp
  have h3: "clock env0 (ticks ?w1) < 11800" by (simp add: example_defs)
  from accessToken_second_call [OF h1 h2 h3] h1 show ?thesis by simp
qed

text \<open>
  An instance: the object built from a dictionary with client id and secret but
  neither user name nor password.
\<close>

theorem accessToken_unavailable_witness:
  "client_id ws_nouser = Some ''id'' \<and> client_secret ws_nouser = Some ''secret''
   \<and> access_token ws_nouser = None \<and> username ws_nouser = None
   \<and> accessToken env0 ws_nouser w0 = (Inr PyNone, ws_nouser, w0)"
proof -
  have h: "client_id ws_nouser = None \<or> client_secret ws_nouser = None
           \<or> (access_token ws_nouser = None
               \<and> (username ws_nouser = None \<or> password ws_nouser = None))"
    by (simp add: example_defs)
  have f: "client_id ws_nouser = Some ''id''" "client_secret ws_nouser = Some ''secret''"
    "access_token ws_nouser = None" "username ws_nouser = None"
    by (simp_all add: example_defs)
  from accessToken_unavailable [OF h, of env0 w0] f show ?thesis by simp
qed

text \<open>
  Against C4 as stated, twice.  User name and password are present and empty (the
  empty string): the password grant is sent with them and the token of the reply
  returned.  User name and password are absent and a token is held that is still
  valid: that token is returned.
\<close>

theorem empty_user_counterexample:
  "username ws_empty_user = Some [] \<and> password ws_empty_user = Some []
   \<and> accessToken env0 ws_empty_user w0 =
       (Inr (Token ''tok1''),
        ws_empty_user\<lparr>access_token := Some ''tok1'', refresh_token := Some ''ref1'',
                      expiration := Some 11800\<rparr>,
        w0\<lparr>sent := [Password_grant ''id'' ''secret'' [] []], ticks := 1\<rparr>)
   \<and> username ws_token_nouser = None \<and> password ws_token_nouser = None
   \<and> accessToken env0 ws_token_nouser w_both =
       (Inr (Token ''tok0''), ws_token_nouser, w_both\<lparr>ticks := 1\<rparr>)"
  by (simp add: example_defs run_defs)

text \<open>
  An instance: a token that expired at time 500, accessed at time 1000 and again at 1001.
\<close>

theorem refresh_error_retries_refresh_witness:
  "accessToken env0 ws_expired w0 =
     (Inr PyNone, ws_expired,
      w0\<lparr>sent := [Refresh_grant ''ref0'' ''id'' ''secret''], ticks := 1,
         stdout := [''error invalid_grant https://api.netatmo.com/oauth2/token'']\<rparr>)
   \<and> sent (snd (snd (accessToken env0 ws_expired
         (w0\<lparr>sent := [Refresh_grant ''ref0'' ''id'' ''secret''], ticks := 1\<rparr>)))) =
       [Refresh_grant ''ref0'' ''id'' ''secret'', Refresh_grant ''ref0'' ''id'' ''secret'']"
proof -
  have a: "client_id ws_expired = Some ''id''" "client_secret ws_expired = Some ''secret''"
    "access_token ws_expired = Some ''tok0''" "expiration ws_expired = Some 500"
    "refresh_token ws_expired = Some ''ref0''"
    by (simp_all add: example_defs)
  have b: "500 \<le> clock env0 (ticks w0)" by (simp add: example_defs)
  have c: "net env0 (length (sent w0)) (Refresh_grant ''ref0'' ''id'' ''secret'') =
             Error_obj ''invalid_grant''"
    by (simp add: example_defs)
  have d: "500 \<le> clock env0
             (ticks (w0\<lparr>sent := [Refresh_grant ''ref0'' ''id'' ''secret''], ticks := 1\<rparr>))"
    by (simp add: example_defs)
  from refresh_error_retries_refresh [OF a b c] d show ?thesis
    by (simp add: w0_def AUTH_REQ_def)
qed

text \<open>
  Against C5 as stated: after the failed refresh, the request of the next access is the
  refresh grant again, not a password grant.
\<close>

theorem refresh_error_counterexample:
  "fst (accessToken env0 ws_expired w0) = Inr PyNone
   \<and> last (sent (snd (snd (access_twice env0 ws_expired w0)))) =
       Refresh_grant ''ref0'' ''id'' ''secret''
   \<and> last (sent (snd (snd (access_twice env0 ws_expired w0)))) \<noteq>
       Password_grant ''id'' ''secret'' ''user'' ''pw''"
  by (simp add: access_twice_def example_defs run_defs)

text \<open>
  An instance: a token that expired at time 500 is refreshed at time 1000; the file held
  the old tokens and holds the ones of the reply afterwards.
\<close>

theorem grant_persisted_witness:
  "accessToken env1 ws_expired_rc w_both =
     (Inr (Token ''tok2''),
      ws_expired_rc\<lparr>access_token := Some ''tok2'', refresh_token := Some ''ref2'',
                    expiration := Some 11801\<rparr>,
      w_both\<lparr>files := [''rc'' \<mapsto>
                \<lparr>defaults = Map.empty,
                 sections = [''netatmo'' \<mapsto> credentials0,
                             ''netatmo/tokens'' \<mapsto>
                               [''access_token'' \<mapsto> ''tok2'', ''refresh_token'' \<mapsto> ''ref2'',
                                ''expiration'' \<mapsto> ''1970-01-01T03:16:41'']]\<rparr>],
             sent := [Refresh_grant ''ref0'' ''id'' ''secret''], ticks := 2\<rparr>)
   \<and> rc_file ws_expired_rc = Some ''rc''
   \<and> (\<exists>req r x st c.
         grant_request ws_expired_rc = Some req
         \<and> sent (snd (snd (accessToken env1 ws_expired_rc w_both))) = sent w_both @ [req]
         \<and> net env1 (length (sent w_both)) req = Token_obj ''tok2'' r x
         \<and> fst (snd (accessToken env1 ws_expired_rc w_both)) =
             ws_expired_rc\<lparr>access_token := Some ''tok2'', refresh_token := Some r,
               expiration := Some (x + clock env1
                 (ticks (snd (snd (accessToken env1 ws_expired_rc w_both))) - 1))\<rparr>
         \<and> isoformat env1 (x + clock env1
               (ticks (snd (snd (accessToken env1 ws_expired_rc w_both))) - 1)) = Some st
         \<and> files (snd (snd (accessToken env1 ws_expired_rc w_both))) ''rc'' = Some c
         \<and> sections c ''netatmo/tokens'' =
              Some (Map.empty(''access_token'' \<mapsto> ''tok2'', ''refresh_token'' \<mapsto> r,
                              ''expiration'' \<mapsto> st)))"
proof -
  let ?r = "accessToken env1 ws_expired_rc w_both"
  have h1: "?r =
     (Inr (Token ''tok2''),
      ws_expired_rc\<lparr>access_token := Some ''tok2'', refresh_token := Some ''ref2'',
                    expiration := Some 11801\<rparr>,
      w_both\<lparr>files := [''rc'' \<mapsto>
                \<lparr>defaults = Map.empty,
                 sections = [''netatmo'' \<mapsto> credentials0,
                             ''netatmo/tokens'' \<mapsto>
                               [''access_token'' \<mapsto> ''tok2'', ''refresh_token'' \<mapsto> ''ref2'',
                                ''expiration'' \<mapsto> ''1970-01-01T03:16:41'']]\<rparr>],
             sent := [Refresh_grant ''ref0'' ''id'' ''secret''], ticks := 2\<rparr>)"
    by (simp add: example_defs run_defs)
  have p: "?r = (Inr (Token ''tok2''), fst (snd ?r), snd (snd ?r))"
    by (subst (1) h1) (simp add: h1)
  have h2: "sent (snd (snd ?r)) \<noteq> sent w_both"
    by (simp add: h1) (simp add: example_defs)
  have h3: "rc_file ws_expired_rc = Some ''rc''"
    by (simp add: example_defs)
  note e = grant_persisted [OF p h2 h3]
  show ?thesis
    by (intro conjI) (rule h1, rule h3, rule e)
qed

text \<open>
  Against C8 as stated: an object built from a dictionary has no configuration file;
  its password grant succeeds and nothing is written anywhere.
\<close>

theorem grant_not_persisted_counterexample:
  "rc_file ws_dict = None
   \<and> fst (accessToken env0 ws_dict w0) = Inr (Token ''tok1'')
   \<and> sent (snd (snd (accessToken env0 ws_dict w0))) =
       [Password_grant ''id'' ''secret'' ''user'' ''pw'']
   \<and> files (snd (snd (accessToken env0 ws_dict w0))) = Map.empty"
  by (simp add: example_defs run_defs)

text \<open>
  An instance: tokens saved into a file that holds the credentials section.
\<close>

theorem saveTokens_keeps_credentials_witness:
  "rc_file ws_tokens = Some ''rc''
   \<and> saveTokens env0 ws_tokens w_creds =
       Inr (w_creds\<lparr>files := [''rc'' \<mapsto>
              \<lparr>defaults = Map.empty,
               sections = [''netatmo'' \<mapsto> credentials0,
                           ''netatmo/tokens'' \<mapsto>
                              [''access_token'' \<mapsto> ''tok1'', ''refresh_token'' \<mapsto> ''ref1'',
                               ''expiration'' \<mapsto> ''1970-01-01T03:16:40'']]\<rparr>]\<rparr>)
   \<and> (\<exists>c' c0. files (w_creds\<lparr>files := [''rc'' \<mapsto>
              \<lparr>defaults = Map.empty,
               sections = [''netatmo'' \<mapsto> credentials0,
                           ''netatmo/tokens'' \<mapsto>
                              [''access_token'' \<mapsto> ''tok1'', ''refresh_token'' \<mapsto> ''ref1'',
                               ''expiration'' \<mapsto> ''1970-01-01T03:16:40'']]\<rparr>]\<rparr>) ''rc'' = Some c'
          \<and> read_config env0 w_creds ''rc'' = Inr c0
          \<and> sections c' ''netatmo/tokens'' \<noteq> None
          \<and> sections c' ''netatmo'' = sections c0 ''netatmo'')"
proof -
  have h1: "rc_file ws_tokens = Some ''rc''"
    by (simp add: example_defs run_defs)
  have h2: "saveTokens env0 ws_tokens w_creds =
       Inr (w_creds\<lparr>files := [''rc'' \<mapsto>
              \<lparr>defaults = Map.empty,
               sections = [''netatmo'' \<mapsto> credentials0,
                           ''netatmo/tokens'' \<mapsto>
                              [''access_token'' \<mapsto> ''tok1'', ''refresh_token'' \<mapsto> ''ref1'',
                               ''expiration'' \<mapsto> ''1970-01-01T03:16:40'']]\<rparr>]\<rparr>)"
    by (simp add: example_defs run_defs)
  note e = saveTokens_keeps_credentials [OF h2 h1]
  show ?thesis
    by (intro conjI) (rule h1, rule h2, rule e)
qed

text \<open>
  Against C9 as stated: credentials set with \<^verbatim>\<open>auth\<close> on an object whose file does
  not exist yet; the password grant of the first access writes a file with the token
  section and no credentials section.
\<close>

theorem tokens_without_credentials_counterexample:
  "fst (accessToken env0 ws_fresh w0) = Inr (Token ''tok1'')
   \<and> file_has_section (snd (snd (accessToken env0 ws_fresh w0))) ''rc'' ''netatmo/tokens''
   \<and> \<not> file_has_section (snd (snd (accessToken env0 ws_fresh w0))) ''rc'' ''netatmo''"
  by (simp add: file_has_section_def example_defs run_defs)



section \<open>Station directory: proofs\<close>

lemma module_loop_exact:
  "module_loop m mods = Some md \<Longrightarrow> md \<in> set mods \<and> (mod_name md = m \<or> entry_id md = m)"
  by (induction mods) (auto split: if_splits)

lemma module_loop_None:
  "(module_loop m mods = None) = (\<forall>md \<in> set mods. mod_name md \<noteq> m \<and> entry_id md \<noteq> m)"
  by (induction mods) auto

lemmas directory_defs =
  ws_dir_def st_home_def md_outdoor_def blank_def stationByName_def moduleByName_def
  env0_def ascii_lower_def lower_char_def less_eq_char_def char_of_def bit_Suc_0_iff

text \<open>
  Claim C7 says that a module is matched by its id without regard to letter case, as a
  station is.  \<^verbatim>\<open>stationByName\<close> compares \<^verbatim>\<open>i['_id'].lower() == station.lower()\<close>;
  \<^verbatim>\<open>moduleByName\<close> compares \<^verbatim>\<open>s['_id'] == module\<close> and \<^verbatim>\<open>mod['_id'] == module\<close>,
  without \<^verbatim>\<open>lower\<close>.  On a snapshot with the station \<^verbatim>\<open>70:ee:50:00:0a:10\<close> and its
  module \<^verbatim>\<open>02:00:00:00:0a:10\<close>: the station is found by its id in upper case; the
  module is found by its id as stored and not by its id in upper case, although the two
  are equal once lowered; and the station's own id in upper case is not found as a
  module either.
\<close>

theorem module_id_case_divergence:
  "stationByName env0 ws_dir (Some ''70:EE:50:00:0A:10'') = Some st_home
   \<and> moduleByName env0 ws_dir ''02:00:00:00:0a:10'' None = Some (Inr md_outdoor)
   \<and> str_lower env0 (entry_id md_outdoor) = str_lower env0 ''02:00:00:00:0A:10''
   \<and> moduleByName env0 ws_dir ''02:00:00:00:0A:10'' None = None
   \<and> moduleByName env0 ws_dir ''70:ee:50:00:0a:10'' None = Some (Inl st_home)
   \<and> moduleByName env0 ws_dir ''70:EE:50:00:0A:10'' None = None"
  by (simp add: directory_defs)

text \<open>
  The other parts of the resolution on this snapshot: the first station for an absent
  identifier and no default, a module by its name, and \<open>None\<close> for a name that nothing
  has.
\<close>

lemma resolution_examples:
  "stationByName env0 ws_dir None = Some st_home
   \<and> stationByName env0 ws_dir (Some ''Home'') = Some st_home
   \<and> stationByName env0 ws_dir (Some ''Elsewhere'') = None
   \<and> moduleByName env0 ws_dir ''Outdoor'' None = Some (Inr md_outdoor)
   \<and> moduleByName env0 ws_dir ''Indoor'' None = Some (Inl st_home)
   \<and> moduleByName env0 ws_dir ''Cellar'' None = None"
  by (simp add: directory_defs)

section \<open>The resume point: proofs\<close>

lemma readlines_nonempty: "c \<noteq> [] \<Longrightarrow> readlines c \<noteq> []"
  by (cases c) (auto split: list.splits)

lemma readlines_append:
  "a = [] \<or> last a = newline \<Longrightarrow> readlines (a @ b) = readlines a @ readlines b"
proof (induction a)
  case Nil
  then show ?case by simp
next
  case (Cons x a)
  show ?case
  proof (cases "x = newline")
    case True
    with Cons show ?thesis by (cases "a = []") auto
  next
    case False
    with Cons.prems have a: "a \<noteq> []" "last a = newline" by (auto split: if_splits)
    then obtain l ls where rl: "readlines a = l # ls"
      using readlines_nonempty [of a] by (cases "readlines a") auto
    from Cons.IH a have "readlines (a @ b) = readlines a @ readlines b" by simp
    with False rl show ?thesis by simp
  qed
qed

lemma readlines_single:
  "l \<noteq> [] \<Longrightarrow> newline \<notin> set (butlast l) \<Longrightarrow> readlines l = [l]"
proof (induction l)
  case Nil
  then show ?case by simp
next
  case (Cons x l)
  show ?case
  proof (cases "l = []")
    case True
    then show ?thesis by simp
  next
    case False
    with Cons show ?thesis by auto
  qed
qed

lemma concat_readlines: "concat (readlines c) = c"
  by (induction c) (auto split: list.splits)

lemma readlines_lines:
  "l \<in> set (readlines c) \<Longrightarrow> l \<noteq> [] \<and> newline \<notin> set (butlast l)"
proof (induction c arbitrary: l)
  case Nil
  then show ?case by simp
next
  case (Cons x c)
  show ?case
  proof (cases "x = newline")
    case True
    with Cons show ?thesis by auto
  next
    case False
    show ?thesis
    proof (cases "readlines c")
      case Nil
      with False Cons.prems show ?thesis by auto
    next
      case (Cons l0 ls)
      with Cons.IH [of l0] have l0: "l0 \<noteq> []" "newline \<notin> set (butlast l0)" by auto
      from Cons False Cons.prems have "l = x # l0 \<or> l \<in> set ls" by auto
      then show ?thesis
      proof
        assume "l = x # l0"
        with l0 False show ?thesis by auto
      next
        assume "l \<in> set ls"
        with Cons Cons.IH [of l] show ?thesis by auto
      qed
    qed
  qed
qed

lemma readlines_inner:
  "l \<in> set (butlast (readlines c)) \<Longrightarrow> last l = newline"
proof (induction c arbitrary: l)
  case Nil
  then show ?case by simp
next
  case (Cons x c)
  show ?case
  proof (cases "x = newline")
    case True
    with Cons show ?thesis by (auto split: if_splits)
  next
    case False
    show ?thesis
    proof (cases "readlines c")
      case Nil
      with False Cons.prems show ?thesis by auto
    next
      case rl: (Cons l0 ls)
      show ?thesis
      proof (cases "ls = []")
        case True
        with rl False Cons.prems show ?thesis by auto
      next
        case ne: False
        from readlines_lines [of l0 c] rl have l0: "l0 \<noteq> []" by auto
        from rl ne have bl: "butlast (readlines c) = l0 # butlast ls" by simp
        from rl False ne Cons.prems have "l = x # l0 \<or> l \<in> set (butlast ls)" by auto
        then show ?thesis
        proof
          assume "l = x # l0"
          with l0 Cons.IH [of l0] bl show ?thesis by auto
        next
          assume "l \<in> set (butlast ls)"
          with Cons.IH [of l] bl show ?thesis by auto
        qed
      qed
    qed
  qed
qed

lemma last_concat_newline:
  "\<forall>l\<in>set ls. l \<noteq> [] \<and> last l = newline \<Longrightarrow> concat ls = [] \<or> last (concat ls) = newline"
  by (induction ls rule: rev_induct) auto

text \<open>A non-empty file is a prefix of whole lines followed by its last line.\<close>

lemma last_line_split:
  assumes "c \<noteq> []"
  shows "\<exists>p. c = p @ last (readlines c) \<and> (p = [] \<or> last p = newline)"
    and "last (readlines c) \<noteq> []"
    and "newline \<notin> set (butlast (last (readlines c)))"
proof -
  let ?rl = "readlines c"
  from assms have ne: "?rl \<noteq> []" by (rule readlines_nonempty)
  then have mem: "last ?rl \<in> set ?rl" by simp
  from readlines_lines [OF mem]
  show "last ?rl \<noteq> []" and "newline \<notin> set (butlast (last ?rl))" by simp_all
  have "c = concat (butlast ?rl @ [last ?rl])"
    using ne by (simp add: concat_readlines)
  then have c: "c = concat (butlast ?rl) @ last ?rl" by simp
  have "\<forall>l\<in>set (butlast ?rl). l \<noteq> [] \<and> last l = newline"
    using readlines_inner [of _ c] readlines_lines [of _ c] by (auto dest: in_set_butlastD)
  from last_concat_newline [OF this] c
  show "\<exists>p. c = p @ last ?rl \<and> (p = [] \<or> last p = newline)" by blast
qed

lemma last_line_append:
  assumes "p = [] \<or> last p = newline" and "l \<noteq> []" and "newline \<notin> set (butlast l)"
  shows "last (readlines (p @ l)) = l"
  using readlines_append [OF assms(1), of l] readlines_single [OF assms(2,3)] by simp

lemma last_line_window:
  assumes "c \<noteq> []" and "length (last (readlines c)) \<le> n"
  shows "last (readlines (drop (length c - min (length c) n) c)) = last (readlines c)"
proof -
  let ?l = "last (readlines c)"
  from last_line_split [OF assms(1)] obtain p where
    c: "c = p @ ?l" and p: "p = [] \<or> last p = newline"
    and l: "?l \<noteq> []" "newline \<notin> set (butlast ?l)" by blast
  let ?k = "length c - min (length c) n"
  have len: "length c = length p + length ?l" by (subst c) simp
  with assms(2) have k: "?k \<le> length p" by (simp add: min_def) arith
  have "drop ?k c = drop ?k (p @ ?l)" using c by simp
  also have "\<dots> = drop ?k p @ ?l" using k by simp
  finally have d: "drop ?k c = drop ?k p @ ?l" .
  have "drop ?k p = [] \<or> last (drop ?k p) = newline"
    using p by (cases "?k < length p") auto
  from last_line_append [OF this l] d show ?thesis by simp
qed

lemma last_line_last:
  assumes "c \<noteq> []"
  shows "last (last (readlines c)) = last c"
proof -
  from last_line_split [OF assms] obtain p where
    "c = p @ last (readlines c)" and "last (readlines c) \<noteq> []" by blast
  then show ?thesis by (metis last_appendR)
qed

lemma code_field:
  assumes "l \<noteq> []" and "last l = newline"
  shows "(if CHR '';'' \<in> set l then takeWhile (\<lambda>c. c \<noteq> CHR '';'') l else butlast l) =
         first_field l"
proof -
  from assms have l: "l = butlast l @ [newline]" by (metis append_butlast_last_id)
  have nl: "newline \<noteq> CHR '';''" by (simp add: newline_def)
  show ?thesis
  proof (cases "CHR '';'' \<in> set (butlast l)")
    case True
    then have "takeWhile (\<lambda>c. c \<noteq> CHR '';'') (butlast l @ [newline]) =
               takeWhile (\<lambda>c. c \<noteq> CHR '';'') (butlast l)"
      by (simp add: takeWhile_append1)
    moreover from True have "CHR '';'' \<in> set l" by (rule in_set_butlastD)
    ultimately show ?thesis using assms l by (simp add: first_field_def strip_nl_def)
  next
    case False
    with l nl have "CHR '';'' \<notin> set l"
      by (metis Un_iff empty_iff empty_set insert_iff list.simps(15) set_append)
    then have notin: "CHR '';'' \<notin> set l" .
    from False have tw: "takeWhile (\<lambda>c. c \<noteq> CHR '';'') (butlast l) = butlast l"
      by (auto simp: takeWhile_eq_all_conv)
    have "first_field l = takeWhile (\<lambda>c. c \<noteq> CHR '';'') (butlast l)"
      using assms by (simp add: first_field_def strip_nl_def)
    with tw have ff: "first_field l = butlast l" by (simp only:)
    from notin ff show ?thesis by simp
  qed
qed

lemma last_timestamp_whole_row:
  assumes "csv_files w fn = Some c" and "c \<noteq> []" and "last c = newline"
      and "length (last (readlines c)) \<le> 100" and "list_all is_ascii (last (readlines c))"
  shows "last_timestamp w fn =
           Inr (case line_ts (last (readlines c)) of None \<Rightarrow> 0 | Some t \<Rightarrow> t)"
proof -
  let ?l = "last (readlines c)"
  have w: "last (readlines (drop (length c - min (length c) 100) c)) = ?l"
    by (rule last_line_window [OF assms(2,4)])
  from last_line_split(2) [OF assms(2)] last_line_last [OF assms(2)] assms(3)
  have "?l \<noteq> []" "last ?l = newline" by simp_all
  from code_field [OF this] w assms show ?thesis
    by (simp add: last_timestamp_def Let_def line_ts_def)
qed

lemma last_timestamp_absent: "csv_files w fn = None \<Longrightarrow> last_timestamp w fn = Inr 0"
  by (simp add: last_timestamp_def)

lemma last_timestamp_empty: "csv_files w fn = Some [] \<Longrightarrow> last_timestamp w fn = Inr 0"
  by (simp add: last_timestamp_def)

text \<open>
  Claim C2, as the code has it.  For a sink that is absent, empty, or ends with a whole
  line of at most 100 ASCII bytes (line feed included), the resume point computed by
  \<^verbatim>\<open>dl_csv\<close> is the one of the specification (the timestamp of the last row plus one
  when its first field is numeric, else 0), except that a last row with timestamp 0
  gives 0 and not 1.
\<close>

theorem resume_start_whole_row:
  assumes "\<forall>c. csv_files w fn = Some c \<and> c \<noteq> [] \<longrightarrow>
             last c = newline \<and> length (last (readlines c)) \<le> 100
             \<and> list_all is_ascii (last (readlines c))"
  shows "resume_start w fn =
           Inr (if \<exists>c. csv_files w fn = Some c \<and> c \<noteq> [] \<and> line_ts (last (readlines c)) = Some 0
                then 0 else resumeTimestamp_spec (csv_files w fn))"
proof (cases "csv_files w fn")
  case None
  then show ?thesis
    by (simp add: resume_start_def last_timestamp_absent resumeTimestamp_spec_def)
next
  case (Some c)
  show ?thesis
  proof (cases "c = []")
    case True
    with Some show ?thesis
      by (simp add: resume_start_def last_timestamp_empty resumeTimestamp_spec_def)
  next
    case False
    with assms Some have "last c = newline" "length (last (readlines c)) \<le> 100"
      "list_all is_ascii (last (readlines c))" by auto
    from last_timestamp_whole_row [OF Some False this] Some False show ?thesis
      by (auto simp: resume_start_def resumeTimestamp_spec_def split: option.splits)
  qed
qed

subsection \<open>Resume point: examples\<close>

lemmas text_defs =
  csv_header_def csv_row_def writerow_def quote_field_def server_def
  utc_text_def hms_def two_digits_def digit_char_def str_nat.simps dquote_def newline_def
  char_of_def bit_Suc_0_iff

lemmas sink_defs =
  sink_file_def w0_def resume_start_def last_timestamp_def resumeTimestamp_spec_def
  line_ts_def first_field_def strip_nl_def isnumeric_def is_digit_def int_of_def
  digit_val_def is_ascii_def Let_def

lemma sink_2017_text:
  "sink_2017 = [dquote] @ ''Timestamp'' @ [dquote] @ '';'' @ [dquote] @ ''DateTime'' @ [dquote] @ '';''
      @ [dquote] @ ''Temperature'' @ [dquote] @ [newline]
      @ ''1500000000;'' @ [dquote] @ ''2017-07-14 02:40:00'' @ [dquote] @ '';21.5'' @ [newline]"
  by (simp add: sink_2017_def text_defs)

lemma sink_2017_last:
  "last (readlines sink_2017) =
     ''1500000000;'' @ [dquote] @ ''2017-07-14 02:40:00'' @ [dquote] @ '';21.5'' @ [newline]"
  by (simp add: sink_2017_def text_defs)


text \<open>
  An instance: a sink with the header and one row of 14 July 2017.
\<close>

theorem resume_start_whole_row_witness:
  "csv_files (sink_file sink_2017) ''netatmo_station.csv'' = Some sink_2017
   \<and> sink_2017 \<noteq> [] \<and> last sink_2017 = newline
   \<and> length (last (readlines sink_2017)) \<le> 100
   \<and> list_all is_ascii (last (readlines sink_2017))
   \<and> line_ts (last (readlines sink_2017)) = Some 1500000000
   \<and> resume_start (sink_file sink_2017) ''netatmo_station.csv'' = Inr 1500000001"
proof -
  let ?w = "sink_file sink_2017"
  have f: "csv_files ?w ''netatmo_station.csv'' = Some sink_2017"
    by (simp add: sink_file_def)
  have a: "sink_2017 \<noteq> []" "last sink_2017 = newline"
    by (simp_all add: sink_2017_text)
  have b: "length (last (readlines sink_2017)) \<le> 100"
    "list_all is_ascii (last (readlines sink_2017))"
    "line_ts (last (readlines sink_2017)) = Some 1500000000"
    unfolding sink_2017_last by (simp_all add: sink_defs dquote_def newline_def)
  have h: "\<forall>c. csv_files ?w ''netatmo_station.csv'' = Some c \<and> c \<noteq> [] \<longrightarrow>
             last c = newline \<and> length (last (readlines c)) \<le> 100
             \<and> list_all is_ascii (last (readlines c))"
    using a b by (simp add: sink_file_def)
  from resume_start_whole_row [OF h] f a b show ?thesis
    by (simp add: resumeTimestamp_spec_def)
qed


lemma sink_zero_text:
  "sink_zero = [dquote] @ ''Timestamp'' @ [dquote] @ '';'' @ [dquote] @ ''DateTime'' @ [dquote] @ '';''
      @ [dquote] @ ''Temperature'' @ [dquote] @ [newline]
      @ ''0;'' @ [dquote] @ ''1970-01-01 00:00:00'' @ [dquote] @ '';1.0'' @ [newline]"
  by (simp add: sink_zero_def text_defs)

lemma sink_zero_last:
  "last (readlines sink_zero) =
     ''0;'' @ [dquote] @ ''1970-01-01 00:00:00'' @ [dquote] @ '';1.0'' @ [newline]"
  by (simp add: sink_zero_def text_defs)

lemma sink_zero_ts: "line_ts (last (readlines sink_zero)) = Some 0"
  unfolding sink_zero_last by (simp add: sink_defs dquote_def newline_def)

lemma sink_zero_spec: "resumeTimestamp_spec (Some sink_zero) = 1"
  using sink_zero_ts by (simp add: resumeTimestamp_spec_def sink_zero_text)


text \<open>
  Against C2 as stated: the last row of the sink has the numeric timestamp 0; the
  specification resumes at 1, the code at 0.
\<close>

theorem resume_zero_counterexample:
  "line_ts (last (readlines sink_zero)) = Some 0
   \<and> resumeTimestamp_spec (Some sink_zero) = 1
   \<and> resume_start (sink_file sink_zero) ''netatmo_station.csv'' = Inr 0"
proof -
  let ?w = "sink_file sink_zero"
  have f: "csv_files ?w ''netatmo_station.csv'' = Some sink_zero"
    by (simp add: sink_file_def)
  have a: "sink_zero \<noteq> []" "last sink_zero = newline"
    by (simp_all add: sink_zero_text)
  have b: "length (last (readlines sink_zero)) \<le> 100"
    "list_all is_ascii (last (readlines sink_zero))"
    unfolding sink_zero_last by (simp_all add: sink_defs dquote_def newline_def)
  from last_timestamp_whole_row [OF f a b] sink_zero_ts
  have "resume_start ?w ''netatmo_station.csv'' = Inr 0"
    by (simp add: resume_start_def)
  with sink_zero_ts sink_zero_spec show ?thesis by simp
qed

lemma sink_long_text:
  "sink_long = ''1500000000;'' @ [dquote] @ ''2017-07-14 02:40:00'' @ [dquote]
      @ '';21.5;480;45;38;1013.2;0.1;12;270;20;265;19.8;23.1;44;47;1.5;1.5;1.5'' @ [newline]"
  by (simp add: sink_long_def long_cells_def text_defs)

lemma sink_long_length: "length sink_long = 101"
  by (simp add: sink_long_text)

lemma sink_long_window:
  "drop (length sink_long - min (length sink_long) 100) sink_long =
     ''500000000;'' @ [dquote] @ ''2017-07-14 02:40:00'' @ [dquote]
      @ '';21.5;480;45;38;1013.2;0.1;12;270;20;265;19.8;23.1;44;47;1.5;1.5;1.5'' @ [newline]"
  unfolding sink_long_length by (simp add: sink_long_text)

lemma sink_long_window_last:
  "last (readlines (''500000000;'' @ [dquote] @ ''2017-07-14 02:40:00'' @ [dquote]
      @ '';21.5;480;45;38;1013.2;0.1;12;270;20;265;19.8;23.1;44;47;1.5;1.5;1.5'' @ [newline])) =
   ''500000000;'' @ [dquote] @ ''2017-07-14 02:40:00'' @ [dquote]
      @ '';21.5;480;45;38;1013.2;0.1;12;270;20;265;19.8;23.1;44;47;1.5;1.5;1.5'' @ [newline]"
  by (simp add: dquote_def newline_def)


lemma last_timestamp_window:
  assumes "csv_files w fn = Some c" and "c \<noteq> []"
      and "last (readlines (drop (length c - min (length c) 100) c)) = l"
      and "list_all is_ascii l" and "CHR '';'' \<in> set l"
  shows "last_timestamp w fn =
           Inr (if isnumeric (takeWhile (\<lambda>c. c \<noteq> CHR '';'') l)
                then int_of (takeWhile (\<lambda>c. c \<noteq> CHR '';'') l) else 0)"
  using assms by (simp add: last_timestamp_def Let_def)

text \<open>
  A row of 101 bytes: the window of 100 bytes cuts the first digit of its timestamp, and
  the resume point is 500000001 instead of 1500000001.
\<close>

lemma resume_long_row:
  "length sink_long = 101
   \<and> resume_start (sink_file sink_long) ''netatmo_station.csv'' = Inr 500000001"
proof -
  let ?l = "''500000000;'' @ [dquote] @ ''2017-07-14 02:40:00'' @ [dquote]
      @ '';21.5;480;45;38;1013.2;0.1;12;270;20;265;19.8;23.1;44;47;1.5;1.5;1.5'' @ [newline]"
  have f: "csv_files (sink_file sink_long) ''netatmo_station.csv'' = Some sink_long"
    by (simp add: sink_file_def)
  have ne: "sink_long \<noteq> []" by (simp add: sink_long_text)
  have l: "last (readlines (drop (length sink_long - min (length sink_long) 100) sink_long)) = ?l"
    by (simp only: sink_long_window sink_long_window_last)
  have a: "list_all is_ascii ?l" by (simp add: dquote_def newline_def is_ascii_def)
  have s: "CHR '';'' \<in> set ?l" by simp
  have "last_timestamp (sink_file sink_long) ''netatmo_station.csv'' = Inr 500000000"
    unfolding last_timestamp_window [OF f ne l a s]
    by (simp add: isnumeric_def is_digit_def int_of_def digit_val_def)
  then show ?thesis by (simp add: resume_start_def sink_long_length)
qed

section \<open>Exporter: proofs\<close>

subsection \<open>Decimal texts\<close>

lemma digit_char_is_digit: "d < 10 \<Longrightarrow> is_digit (digit_char d)"
proof -
  assume "d < 10"
  then have "d \<in> {0,1,2,3,4,5,6,7,8,9}" by auto
  then show ?thesis
    by (auto simp: is_digit_def digit_char_def char_of_def bit_Suc_0_iff less_eq_char_def)
qed

lemma digit_val_digit_char: "d < 10 \<Longrightarrow> digit_val (digit_char d) = d"
  by (simp add: digit_val_def digit_char_def)

lemma digit_char_less: "a < 10 \<Longrightarrow> b < 10 \<Longrightarrow> (digit_char a < digit_char b) = (a < b)"
  by (simp add: digit_char_def less_char_def)

lemma digit_char_inj: "a < 10 \<Longrightarrow> b < 10 \<Longrightarrow> (digit_char a = digit_char b) = (a = b)"
  by (metis digit_val_digit_char)

lemma str_nat_nonempty: "str_nat n \<noteq> []"
  by (subst str_nat.simps) simp

lemma str_nat_digits: "list_all is_digit (str_nat n)"
proof (induction n rule: str_nat.induct)
  case (1 n)
  show ?case
  proof (cases "n < 10")
    case True
    then show ?thesis by (subst str_nat.simps) (simp add: digit_char_is_digit)
  next
    case False
    with 1 show ?thesis by (subst str_nat.simps) (simp add: digit_char_is_digit)
  qed
qed

lemma int_of_snoc: "int_of (ds @ [c]) = 10 * int_of ds + digit_val c"
  by (simp add: int_of_def)

lemma int_of_str_nat: "int_of (str_nat n) = n"
proof (induction n rule: str_nat.induct)
  case (1 n)
  show ?case
  proof (cases "n < 10")
    case True
    then show ?thesis
      by (subst str_nat.simps) (simp add: int_of_def digit_val_digit_char)
  next
    case False
    with 1 have "int_of (str_nat (n div 10)) = n div 10" by simp
    with False show ?thesis
      by (subst str_nat.simps) (simp add: int_of_snoc digit_val_digit_char)
  qed
qed

lemma str_nat_inj: "str_nat a = str_nat b \<Longrightarrow> a = b"
  by (metis int_of_str_nat)

lemma isnumeric_str_nat: "isnumeric (str_nat n)"
  by (simp add: isnumeric_def str_nat_nonempty str_nat_digits)

lemma snoc_less_snoc:
  "length xs = length ys \<Longrightarrow>
     (xs @ [x] < ys @ [y]) = (xs < ys \<or> xs = ys \<and> x < y)"
  for x y :: char
  by (induction xs ys rule: list_induct2) auto

lemma length_str_nat_small: "length (str_nat n) = 1 \<longleftrightarrow> n < 10"
  by (subst str_nat.simps) (simp add: str_nat_nonempty)

lemma div_mod_less:
  "(a div 10 < b div 10 \<or> a div 10 = b div 10 \<and> a mod 10 < b mod 10) = (a < b)"
  for a b :: nat
proof -
  define qa ra qb rb where "qa = a div 10" and "ra = a mod 10"
    and "qb = b div 10" and "rb = b mod 10"
  have a: "a = 10 * qa + ra" and b: "b = 10 * qb + rb"
    and r: "ra < 10" "rb < 10"
    by (simp_all add: qa_def ra_def qb_def rb_def)
  have "(qa < qb \<or> qa = qb \<and> ra < rb) = (10 * qa + ra < 10 * qb + rb)"
    using r by linarith
  then show ?thesis
    unfolding qa_def [symmetric] ra_def [symmetric] qb_def [symmetric] rb_def [symmetric]
    using a b by simp
qed

lemma str_nat_less:
  "length (str_nat a) = length (str_nat b) \<Longrightarrow> (str_nat a < str_nat b) = (a < b)"
proof (induction a arbitrary: b rule: str_nat.induct)
  case (1 a)
  show ?case
  proof (cases "a < 10")
    case True
    with "1.prems" have b: "b < 10" using length_str_nat_small by metis
    have "str_nat a = [digit_char a]"
      using True by (subst str_nat.simps) simp
    moreover have "str_nat b = [digit_char b]"
      using b by (subst str_nat.simps) simp
    ultimately have "(str_nat a < str_nat b) = (digit_char a < digit_char b)"
      by simp
    with True b show ?thesis by (simp add: digit_char_less)
  next
    case False
    with "1.prems" have b: "\<not> b < 10" using length_str_nat_small by metis
    have sa: "str_nat a = str_nat (a div 10) @ [digit_char (a mod 10)]"
      using False by (subst str_nat.simps) simp
    have sb: "str_nat b = str_nat (b div 10) @ [digit_char (b mod 10)]"
      using b by (subst str_nat.simps) simp
    from "1.prems" sa sb have len: "length (str_nat (a div 10)) = length (str_nat (b div 10))"
      by simp
    from "1.IH" [OF False len]
    have ih: "(str_nat (a div 10) < str_nat (b div 10)) = (a div 10 < b div 10)" .
    have eq: "(str_nat (a div 10) = str_nat (b div 10)) = (a div 10 = b div 10)"
      using str_nat_inj by auto
    have "(str_nat a < str_nat b) =
          (a div 10 < b div 10 \<or> a div 10 = b div 10 \<and> a mod 10 < b mod 10)"
      by (simp add: sa sb snoc_less_snoc [OF len] ih eq digit_char_less)
    also have "\<dots> = (a < b)"
      by (rule div_mod_less)
    finally show ?thesis .
  qed
qed

subsection \<open>Sorting a page\<close>

lemma distinct_map_insort_key:
  "distinct (map g (insort_key f x xs)) = (g x \<notin> g ` set xs \<and> distinct (map g xs))"
  by (induction xs) (auto simp: set_insort_key)

lemma distinct_map_sort_key:
  "distinct (map g (sort_key f xs)) = distinct (map g xs)"
  by (induction xs) (auto simp: distinct_map_insort_key)

lemma str_nat_le_imp:
  assumes "length (str_nat a) = length (str_nat b)" and "str_nat a \<le> str_nat b"
  shows "a \<le> b"
proof -
  from assms(1) have "(str_nat b < str_nat a) = (b < a)"
    by (intro str_nat_less) simp
  with assms(2) show ?thesis by auto
qed

lemma sort_keys_increasing:
  fixes body :: page
  assumes "distinct (map fst body)"
      and "\<forall>r\<in>set body. \<forall>r'\<in>set body. length (str_nat (fst r)) = length (str_nat (fst r'))"
  shows "sorted_wrt (<) (map fst (sort_key (\<lambda>r. str_nat (fst r)) body))"
proof -
  let ?f = "\<lambda>r::nat \<times> string list. str_nat (fst r)"
  let ?items = "sort_key ?f body"
  have "sorted (map ?f ?items)" by (rule sorted_sort_key)
  then have "sorted_wrt (\<lambda>x y. ?f x \<le> ?f y) ?items"
    by (simp add: sorted_wrt_map)
  then have "sorted_wrt (\<lambda>x y. fst x \<le> fst y) ?items"
  proof (rule sorted_wrt_mono_rel [rotated])
    fix x y assume "x \<in> set ?items" "y \<in> set ?items" "?f x \<le> ?f y"
    with assms(2) show "fst x \<le> fst y" by (auto intro: str_nat_le_imp)
  qed
  then have "sorted (map fst ?items)" by (simp add: sorted_wrt_map)
  moreover from assms(1) have "distinct (map fst ?items)"
    by (simp add: distinct_map_sort_key)
  ultimately show ?thesis by (simp add: strict_sorted_iff)
qed

subsection \<open>Writing the rows of a page\<close>

lemma content_of_append_file:
  "content_of (append_file w fn text) fn' =
     (if fn' = fn then content_of w fn @ text else content_of w fn')"
  by (simp add: content_of_def append_file_def)

lemma write_rows_content:
  "content_of (snd (write_rows E fn items start w)) fn =
     content_of w fn @ concat (map (csv_row E) items)"
  by (induction items arbitrary: start w) (simp_all add: content_of_append_file)

lemma write_rows_start:
  "start \<le> fst (write_rows E fn items start w)
   \<and> (\<forall>r\<in>set items. fst r \<le> fst (write_rows E fn items start w))"
proof (induction items arbitrary: start w)
  case Nil
  then show ?case by simp
next
  case (Cons r items)
  let ?s = "if start < fst r then fst r else start"
  from Cons [of ?s "append_file w fn (csv_row E r)"]
  show ?case by (auto simp: le_trans split: if_splits)
qed

subsection \<open>Requests leave the CSV files alone\<close>

lemma saveTokens_csv: "saveTokens E ws w = Inr w' \<Longrightarrow> csv_files w' = csv_files w"
  by (auto simp: saveTokens_def write_config_def Let_def split: option.splits sum.splits if_splits)

lemma store_reply_csv:
  "store_reply E resp ws w = (res, ws1, w1) \<Longrightarrow> csv_files w1 = csv_files w"
  by (cases resp)
     (auto simp: store_reply_def time_time_def print_def Let_def
           split: sum.splits dest: saveTokens_csv)

lemma accessToken_csv:
  "accessToken E ws w = (res, ws1, w1) \<Longrightarrow> csv_files w1 = csv_files w"
  by (auto simp: accessToken_def postRequest_def time_time_def Let_def
           split: option.splits if_splits prod.splits dest!: store_reply_csv)

lemma getMeasure_csv:
  assumes "getMeasure E ws w device_id scale mtype module_id date_begin = (res, ws1, w1)"
  shows "csv_files w1 = csv_files w"
proof -
  obtain r wsa wa where a: "accessToken E ws w = (r, wsa, wa)" by (metis prod_cases3)
  from accessToken_csv [OF a] have c: "csv_files wa = csv_files w" .
  from assms a c show ?thesis
    by (auto simp: getMeasure_def postRequest_def Let_def
             split: sum.splits token_value.splits option.splits if_splits reply.splits)
qed

lemma getMeasure_page:
  assumes "getMeasure E ws w device_id scale mtype module_id date_begin =
             (Inr (Measure_obj status body), ws1, w1)"
  shows "\<exists>k tok dev md ty.
           net E k (Get_measure tok dev md scale ty
                      (if date_begin = Some 0 then None else date_begin)) =
             Measure_obj status body"
proof -
  obtain r wsa wa where a: "accessToken E ws w = (r, wsa, wa)" by (metis prod_cases3)
  from assms a show ?thesis
    apply (auto simp: getMeasure_def postRequest_def Let_def
                split: sum.splits token_value.splits option.splits if_splits reply.splits)
           apply blast+
    done
qed

subsection \<open>The loop\<close>

lemma content_of_cong: "csv_files w1 = csv_files w \<Longrightarrow> content_of w1 fn = content_of w fn"
  by (simp add: content_of_def)

lemma dl_loop_step:
  assumes "dl_loop E fn dev md field_names de (Suc fuel) start ws w = (out, rows, ws', w')"
  shows "(rows = [] \<and> csv_files w' = csv_files w)
       \<or> (\<exists>body ws1 w1 start1 w2.
             getMeasure E ws w dev ''max'' (join '','' field_names) md (Some start) =
               (Inr (Measure_obj ''ok'' body), ws1, w1)
             \<and> body \<noteq> []
             \<and> write_rows E fn (sort_key (\<lambda>r. str_nat (fst r)) body) start w1 = (start1, w2)
             \<and> ((rows = sort_key (\<lambda>r. str_nat (fst r)) body \<and> w' = w2)
                \<or> (\<exists>rows2.
                      dl_loop E fn dev md field_names de fuel (start1 + 1) ws1 w2 =
                        (out, rows2, ws', w')
                      \<and> rows = sort_key (\<lambda>r. str_nat (fst r)) body @ rows2)))"
proof -
  obtain r ws1 w1 where g:
    "getMeasure E ws w dev ''max'' (join '','' field_names) md (Some start) = (r, ws1, w1)"
    by (metis prod_cases3)
  from getMeasure_csv [OF g] have c: "csv_files w1 = csv_files w" .
  show ?thesis
  proof (cases r)
    case (Inl e)
    with assms g c show ?thesis by simp
  next
    case (Inr v)
    show ?thesis
    proof (cases "\<exists>body. v = Measure_obj ''ok'' body \<and> body \<noteq> []")
      case False
      with assms g c Inr show ?thesis by (cases v) (auto split: if_splits)
    next
      case True
      then obtain body where v: "v = Measure_obj ''ok'' body" and ne: "body \<noteq> []" by blast
      obtain start1 w2 where
        wr: "write_rows E fn (sort_key (\<lambda>r. str_nat (fst r)) body) start w1 = (start1, w2)"
        by (metis prod.exhaust)
      from assms g Inr v ne wr show ?thesis
        by (auto simp: Let_def split: option.splits if_splits prod.splits)
    qed
  qed
qed

lemma honest_page:
  assumes "honest E"
      and "getMeasure E ws w dev scale ty md (Some start) = (Inr (Measure_obj status body), ws1, w1)"
  shows "distinct (map fst body)"
    and "\<forall>r\<in>set body. 0 < fst r \<and> start \<le> fst r \<and> row_ok E r"
    and "\<forall>r\<in>set body. \<forall>r'\<in>set body. length (str_nat (fst r)) = length (str_nat (fst r'))"
proof -
  let ?db = "if Some start = Some 0 then None else Some start"
  from getMeasure_page [OF assms(2)] obtain k tok d m t where
    n: "net E k (Get_measure tok d m scale t ?db) = Measure_obj status body" by blast
  have p: "page_ok E ?db body"
    by (rule assms(1) [unfolded honest_def, rule_format, OF n])
  then have d: "distinct (map fst body)"
    and a: "\<And>r. r \<in> set body \<Longrightarrow>
              0 < fst r \<and> (case ?db of None \<Rightarrow> True | Some b \<Rightarrow> b \<le> fst r) \<and> row_ok E r
              \<and> (\<forall>r'\<in>set body. length (str_nat (fst r)) = length (str_nat (fst r')))"
    unfolding page_ok_def list_all_iff by blast+
  show "distinct (map fst body)" by (rule d)
  show "\<forall>r\<in>set body. 0 < fst r \<and> start \<le> fst r \<and> row_ok E r"
  proof
    fix r assume "r \<in> set body"
    from a [OF this] show "0 < fst r \<and> start \<le> fst r \<and> row_ok E r"
      by (cases "start = 0") simp_all
  qed
  show "\<forall>r\<in>set body. \<forall>r'\<in>set body. length (str_nat (fst r)) = length (str_nat (fst r'))"
    using a by blast
qed

lemma dl_loop_rows:
  assumes "honest E"
      and "dl_loop E fn dev md field_names de fuel start ws w = (out, rows, ws', w')"
  shows "sorted_wrt (<) (map fst rows)
         \<and> (\<forall>r\<in>set rows. start \<le> fst r \<and> 0 < fst r \<and> row_ok E r)
         \<and> content_of w' fn = content_of w fn @ concat (map (csv_row E) rows)"
  using assms(2)
proof (induction fuel arbitrary: start ws w out rows ws' w')
  case 0
  then show ?case by simp
next
  case (Suc fuel)
  let ?key = "\<lambda>r::nat \<times> string list. str_nat (fst r)"
  from dl_loop_step [OF Suc.prems] show ?case
  proof (elim disjE exE conjE)
    assume r: "rows = []" and c: "csv_files w' = csv_files w"
    from content_of_cong [OF c, of fn] r show ?thesis by simp
  next
    fix body ws1 w1 start1 w2
    assume g: "getMeasure E ws w dev ''max'' (join '','' field_names) md (Some start) =
                 (Inr (Measure_obj ''ok'' body), ws1, w1)"
      and wr: "write_rows E fn (sort_key ?key body) start w1 = (start1, w2)"
      and fin: "rows = sort_key ?key body" "w' = w2"
    note p = honest_page [OF assms(1) g]
    have s: "sorted_wrt (<) (map fst (sort_key ?key body))"
      by (rule sort_keys_increasing [OF p(1) p(3)])
    have c1: "content_of w1 fn = content_of w fn"
      by (rule content_of_cong [OF getMeasure_csv [OF g]])
    from write_rows_content [of E fn "sort_key ?key body" start w1] wr c1
    have c2: "content_of w2 fn = content_of w fn @ concat (map (csv_row E) (sort_key ?key body))"
      by simp
    from s p(2) c2 fin show ?thesis by simp
  next
    fix body ws1 w1 start1 w2 rows2
    assume g: "getMeasure E ws w dev ''max'' (join '','' field_names) md (Some start) =
                 (Inr (Measure_obj ''ok'' body), ws1, w1)"
      and wr: "write_rows E fn (sort_key ?key body) start w1 = (start1, w2)"
      and rec: "dl_loop E fn dev md field_names de fuel (start1 + 1) ws1 w2 = (out, rows2, ws', w')"
      and rows: "rows = sort_key ?key body @ rows2"
    note p = honest_page [OF assms(1) g]
    have s: "sorted_wrt (<) (map fst (sort_key ?key body))"
      by (rule sort_keys_increasing [OF p(1) p(3)])
    have c1: "content_of w1 fn = content_of w fn"
      by (rule content_of_cong [OF getMeasure_csv [OF g]])
    from write_rows_content [of E fn "sort_key ?key body" start w1] wr c1
    have c2: "content_of w2 fn = content_of w fn @ concat (map (csv_row E) (sort_key ?key body))"
      by simp
    from write_rows_start [of start E fn "sort_key ?key body" w1] wr
    have st: "start \<le> start1" "\<forall>r\<in>set body. fst r \<le> start1" by simp_all
    from Suc.IH [OF rec] have ih:
      "sorted_wrt (<) (map fst rows2)"
      "\<forall>r\<in>set rows2. start1 + 1 \<le> fst r \<and> 0 < fst r \<and> row_ok E r"
      "content_of w' fn = content_of w2 fn @ concat (map (csv_row E) rows2)"
      by simp_all
    have "sorted_wrt (<) (map fst (sort_key ?key body @ rows2))"
      using s ih(1,2) st(2) by (fastforce simp: sorted_wrt_append)
    moreover have "\<forall>r\<in>set (sort_key ?key body @ rows2). start \<le> fst r \<and> 0 < fst r \<and> row_ok E r"
      using p(2) ih(2) st(1) by fastforce
    moreover have "content_of w' fn =
        content_of w fn @ concat (map (csv_row E) (sort_key ?key body @ rows2))"
      using ih(3) c2 by simp
    ultimately show ?thesis using rows by simp
  qed
qed

subsection \<open>Rows as lines of the sink\<close>

lemma newline_not_in_join:
  "list_all (\<lambda>cell. newline \<notin> set cell) cells \<Longrightarrow> newline \<notin> set sep
     \<Longrightarrow> newline \<notin> set (join sep cells)"
  by (induction sep cells rule: join.induct) auto

lemma newline_not_in_quote_field:
  "newline \<notin> set s \<Longrightarrow> newline \<notin> set (quote_field s)"
  by (auto simp: quote_field_def dquote_def newline_def split: if_splits)

lemma semicolon_not_digit: "\<not> is_digit (CHR '';'')"
  by (simp add: is_digit_def less_eq_char_def)

lemma dquote_not_digit: "\<not> is_digit dquote"
  by (simp add: is_digit_def dquote_def less_eq_char_def)

lemma semicolon_not_in_str_nat: "CHR '';'' \<notin> set (str_nat n)"
  using str_nat_digits [of n] semicolon_not_digit by (auto simp: list_all_iff)

lemma newline_not_in_str_nat: "newline \<notin> set (str_nat n)"
proof -
  have "\<not> is_digit newline" by (simp add: is_digit_def newline_def less_eq_char_def)
  with str_nat_digits [of n] show ?thesis by (auto simp: list_all_iff)
qed

lemma csv_row_shape:
  "csv_row E r =
     str_nat (fst r) @ CHR '';'' # join '';'' (quote_field (strftime E (fst r)) # snd r)
       @ [newline]"
  by (simp add: csv_row_def writerow_def)

lemma csv_row_line:
  assumes "row_ok E r"
  shows "csv_row E r \<noteq> []" and "last (csv_row E r) = newline"
    and "newline \<notin> set (butlast (csv_row E r))"
proof -
  show "csv_row E r \<noteq> []" "last (csv_row E r) = newline"
    by (simp_all add: csv_row_def writerow_def)
  from assms have "list_all (\<lambda>cell. newline \<notin> set cell) (quote_field (strftime E (fst r)) # snd r)"
    by (simp add: row_ok_def newline_not_in_quote_field)
  then have "newline \<notin> set (join '';'' (quote_field (strftime E (fst r)) # snd r))"
    by (rule newline_not_in_join) (simp add: newline_def)
  moreover have "butlast (csv_row E r) =
      str_nat (fst r) @ CHR '';'' # join '';'' (quote_field (strftime E (fst r)) # snd r)"
    by (simp add: csv_row_shape butlast_append)
  ultimately show "newline \<notin> set (butlast (csv_row E r))"
    by (simp add: newline_not_in_str_nat) (simp add: newline_def)
qed

lemma readlines_csv_row: "row_ok E r \<Longrightarrow> readlines (csv_row E r) = [csv_row E r]"
  by (rule readlines_single) (simp_all add: csv_row_line)

lemma takeWhile_before:
  "x \<notin> set xs \<Longrightarrow> takeWhile (\<lambda>c. c \<noteq> x) (xs @ x # ys) = xs"
  by (induction xs) auto

lemma line_ts_csv_row: "line_ts (csv_row E r) = Some (fst r)"
proof -
  have "strip_nl (csv_row E r) =
      str_nat (fst r) @ CHR '';'' # join '';'' (quote_field (strftime E (fst r)) # snd r)"
    by (simp add: strip_nl_def csv_row_shape butlast_append)
  then have "first_field (csv_row E r) = str_nat (fst r)"
    unfolding first_field_def
    by (simp only: takeWhile_before [OF semicolon_not_in_str_nat])
  then show ?thesis by (simp add: line_ts_def isnumeric_str_nat int_of_str_nat)
qed

lemma readlines_rows:
  assumes "c = [] \<or> last c = newline" and "\<forall>r\<in>set rows. row_ok E r"
  shows "readlines (c @ concat (map (csv_row E) rows)) = readlines c @ map (csv_row E) rows"
  using assms
proof (induction rows arbitrary: c)
  case Nil
  then show ?case by simp
next
  case (Cons r rows)
  from Cons.prems have ok: "row_ok E r" by simp
  have "last (c @ csv_row E r) = newline" using csv_row_line [OF ok] by simp
  with Cons.IH [of "c @ csv_row E r"] Cons.prems
  have "readlines ((c @ csv_row E r) @ concat (map (csv_row E) rows)) =
        readlines (c @ csv_row E r) @ map (csv_row E) rows" by simp
  moreover have "readlines (c @ csv_row E r) = readlines c @ [csv_row E r]"
    using readlines_append [OF Cons.prems(1), of "csv_row E r"] readlines_csv_row [OF ok] by simp
  ultimately show ?case by simp
qed

lemma map_filter_append:
  "List.map_filter f (xs @ ys) = List.map_filter f xs @ List.map_filter f ys"
  by (simp add: List.map_filter_def)

lemma map_filter_rows: "List.map_filter line_ts (map (csv_row E) rows) = map fst rows"
  by (induction rows) (simp_all add: List.map_filter_def line_ts_csv_row)

lemma sink_timestamps_rows:
  assumes "c = [] \<or> last c = newline" and "\<forall>r\<in>set rows. row_ok E r"
  shows "sink_timestamps (c @ concat (map (csv_row E) rows)) = sink_timestamps c @ map fst rows"
  by (simp add: sink_timestamps_def readlines_rows [OF assms] map_filter_append map_filter_rows)

lemma last_concat_rows:
  "rows \<noteq> [] \<Longrightarrow> last (c @ concat (map (csv_row E) rows)) = newline"
  by (induction rows rule: rev_induct) (simp_all add: csv_row_def writerow_def)

subsection \<open>The header\<close>

lemma csv_header_shape:
  "csv_header field_names =
     quote_field ''Timestamp'' @ CHR '';'' #
       join '';'' (quote_field ''DateTime'' # map quote_field field_names) @ [newline]"
  by (simp add: csv_header_def writerow_def)

lemma csv_header_line:
  assumes "header_ok field_names"
  shows "csv_header field_names \<noteq> []" and "last (csv_header field_names) = newline"
    and "readlines (csv_header field_names) = [csv_header field_names]"
    and "line_ts (csv_header field_names) = None"
proof -
  let ?h = "csv_header field_names"
  show ne: "?h \<noteq> []" and la: "last ?h = newline"
    by (simp_all add: csv_header_def writerow_def)
  have "newline \<notin> set ''DateTime''" by (simp add: newline_def)
  with assms have "list_all (\<lambda>cell. newline \<notin> set cell)
                     (quote_field ''DateTime'' # map quote_field field_names)"
    by (auto simp: header_ok_def list_all_iff intro!: newline_not_in_quote_field)
  then have "newline \<notin> set (join '';'' (quote_field ''DateTime'' # map quote_field field_names))"
    by (rule newline_not_in_join) (simp add: newline_def)
  moreover have bl: "butlast ?h = quote_field ''Timestamp'' @ CHR '';'' #
       join '';'' (quote_field ''DateTime'' # map quote_field field_names)"
    by (simp add: csv_header_shape butlast_append)
  ultimately have "newline \<notin> set (butlast ?h)"
    by (simp add: quote_field_def dquote_def newline_def)
  with ne show "readlines ?h = [?h]" by (rule readlines_single)
  from ne la bl have "first_field ?h =
      takeWhile (\<lambda>c. c \<noteq> CHR '';'') (quote_field ''Timestamp'' @ CHR '';'' #
        join '';'' (quote_field ''DateTime'' # map quote_field field_names))"
    by (simp add: first_field_def strip_nl_def)
  then have "hd (first_field ?h) = dquote \<and> first_field ?h \<noteq> []"
    by (simp add: quote_field_def dquote_def)
  then have "\<not> isnumeric (first_field ?h)"
    using dquote_not_digit by (cases "first_field ?h") (auto simp: isnumeric_def)
  then show "line_ts ?h = None" by (simp add: line_ts_def)
qed

lemma sink_timestamps_header:
  "header_ok field_names \<Longrightarrow> sink_timestamps (csv_header field_names) = []"
  by (simp add: sink_timestamps_def csv_header_line List.map_filter_def)

subsection \<open>The sink stays in order\<close>

lemma sink_timestamps_Nil: "sink_timestamps [] = []"
  by (simp add: sink_timestamps_def List.map_filter_def)

lemma map_filter_Nil_D:
  "List.map_filter f xs = [] \<Longrightarrow> x \<in> set xs \<Longrightarrow> f x = None"
  by (auto simp: List.map_filter_def filter_empty_conv)

lemma resume_start_sink_ok:
  assumes "sink_ok (content_of w fn)"
  shows "resume_start w fn =
           Inr (if sink_timestamps (content_of w fn) = [] then 0
                else last (sink_timestamps (content_of w fn)) + 1)"
proof (cases "content_of w fn = []")
  case True
  then have "last_timestamp w fn = Inr 0"
    by (cases "csv_files w fn")
       (simp_all add: content_of_def last_timestamp_absent last_timestamp_empty)
  with True show ?thesis by (simp add: resume_start_def sink_timestamps_Nil)
next
  case False
  let ?c = "content_of w fn"
  let ?l = "last (readlines ?c)"
  from False have f: "csv_files w fn = Some ?c"
    by (cases "csv_files w fn") (simp_all add: content_of_def)
  from assms False have a: "last ?c = newline" "length ?l \<le> 100" "list_all is_ascii ?l"
    by (simp_all add: sink_ok_def)
  note lt = last_timestamp_whole_row [OF f False a]
  show ?thesis
  proof (cases "sink_timestamps ?c = []")
    case True
    have "?l \<in> set (readlines ?c)" using readlines_nonempty [OF False] by simp
    with True have "line_ts ?l = None"
      unfolding sink_timestamps_def by (rule map_filter_Nil_D)
    with lt True show ?thesis by (simp add: resume_start_def)
  next
    case ne: False
    with assms have l: "line_ts ?l = Some (last (sink_timestamps ?c))"
      by (simp add: sink_ok_def)
    from assms ne have "0 < last (sink_timestamps ?c)"
      by (simp add: sink_ok_def list_all_iff)
    with lt l ne show ?thesis by (simp add: resume_start_def)
  qed
qed

lemma sink_after_ok:
  assumes ok: "sink_ok c" and h: "header_ok field_names"
      and s: "sorted_wrt (<) (map fst rows)"
      and r: "\<forall>r\<in>set rows. row_ok E r \<and> 0 < fst r"
      and above: "\<forall>t\<in>set (sink_timestamps c). \<forall>r\<in>set rows. t < fst r"
  shows "sink_timestamps (sink_after E c field_names rows) = sink_timestamps c @ map fst rows"
    and "sink_ok (sink_after E c field_names rows)"
proof -
  let ?c1 = "if c = [] then csv_header field_names else c"
  let ?R = "sink_after E c field_names rows"
  have R: "?R = ?c1 @ concat (map (csv_row E) rows)" by (simp add: sink_after_def)
  have c1: "?c1 \<noteq> []" "last ?c1 = newline"
    using ok csv_header_line(1,2) [OF h] by (auto simp: sink_ok_def)
  have ts1: "sink_timestamps ?c1 = sink_timestamps c"
    by (simp add: sink_timestamps_header [OF h] sink_timestamps_Nil)
  have rows_ok: "\<forall>r\<in>set rows. row_ok E r" using r by simp
  from c1 have e: "?c1 = [] \<or> last ?c1 = newline" by simp
  show ts: "sink_timestamps ?R = sink_timestamps c @ map fst rows"
    unfolding R sink_timestamps_rows [OF e rows_ok] ts1 ..
  have rl: "readlines ?R = readlines ?c1 @ map (csv_row E) rows"
    unfolding R by (rule readlines_rows [OF e rows_ok])
  have ne: "?R \<noteq> []" using c1 R by simp
  have la: "last ?R = newline"
  proof (cases "rows = []")
    case True
    with c1 R show ?thesis by simp
  next
    case False
    then show ?thesis unfolding R by (rule last_concat_rows)
  qed
  have line: "length (last (readlines ?R)) \<le> 100 \<and> list_all is_ascii (last (readlines ?R))
              \<and> (sink_timestamps ?R \<noteq> [] \<longrightarrow>
                   line_ts (last (readlines ?R)) = Some (last (sink_timestamps ?R)))"
  proof (cases "rows = []")
    case True
    then have RR: "?R = ?c1" by (simp add: sink_after_def)
    show ?thesis
    proof (cases "c = []")
      case True
      with RR have "?R = csv_header field_names" by simp
      with h csv_header_line(3) [OF h] sink_timestamps_header [OF h] show ?thesis
        by (simp add: header_ok_def)
    next
      case False
      with RR have "?R = c" by simp
      with ok False show ?thesis by (simp add: sink_ok_def)
    qed
  next
    case False
    then have l: "last (readlines ?R) = csv_row E (last rows)"
      by (simp add: rl last_map)
    from False have mem: "last rows \<in> set rows" by simp
    with r have "row_ok E (last rows)" by blast
    then have "length (csv_row E (last rows)) \<le> 100" "list_all is_ascii (csv_row E (last rows))"
      by (simp_all add: row_ok_def)
    moreover from False have "last (sink_timestamps ?R) = fst (last rows)"
      by (simp add: ts last_map)
    ultimately show ?thesis by (simp add: l line_ts_csv_row)
  qed
  have sorted: "sorted_wrt (<) (sink_timestamps ?R)"
    using ok s above by (auto simp: ts sorted_wrt_append sink_ok_def)
  have pos: "list_all (\<lambda>t. 0 < t) (sink_timestamps ?R)"
    using ok r by (auto simp: ts sink_ok_def list_all_iff)
  from ne la line sorted pos show "sink_ok ?R" by (simp add: sink_ok_def)
qed

lemma content_of_open_append:
  "content_of (open_append w fn field_names) fn =
     (if content_of w fn = [] then csv_header field_names else content_of w fn)"
  by (simp add: open_append_def content_of_def)

lemma sorted_wrt_last_max:
  "sorted_wrt (<) xs \<Longrightarrow> x \<in> set xs \<Longrightarrow> x \<le> last xs"
  for xs :: "nat list"
  by (induction xs) (auto simp: less_imp_le)

lemma dl_csv_run:
  assumes "honest E" and "header_ok field_names" and "sink_ok (content_of w fn)"
      and "dl_csv E fuel ws w fn dev md field_names de = (out, rows, ws', w')"
  shows "content_of w' fn = sink_after E (content_of w fn) field_names rows"
    and "sorted_wrt (<) (map fst rows)"
    and "\<forall>r\<in>set rows. row_ok E r \<and> 0 < fst r"
    and "\<forall>t\<in>set (sink_timestamps (content_of w fn)). \<forall>r\<in>set rows. t < fst r"
proof -
  let ?c = "content_of w fn"
  let ?start = "if sink_timestamps ?c = [] then 0 else last (sink_timestamps ?c) + 1"
  from resume_start_sink_ok [OF assms(3)] assms(4)
  have run: "dl_loop E fn dev md field_names de fuel ?start ws (open_append w fn field_names) =
               (out, rows, ws', w')"
    by (simp add: dl_csv_def)
  note L = dl_loop_rows [OF assms(1) run]
  from L show "sorted_wrt (<) (map fst rows)" by blast
  from L show "\<forall>r\<in>set rows. row_ok E r \<and> 0 < fst r" by blast
  from L have "content_of w' fn =
      content_of (open_append w fn field_names) fn @ concat (map (csv_row E) rows)" by blast
  then show "content_of w' fn = sink_after E ?c field_names rows"
    by (simp add: content_of_open_append sink_after_def)
  show "\<forall>t\<in>set (sink_timestamps ?c). \<forall>r\<in>set rows. t < fst r"
  proof (intro ballI)
    fix t r assume t: "t \<in> set (sink_timestamps ?c)" and r: "r \<in> set rows"
    from assms(3) have "sorted_wrt (<) (sink_timestamps ?c)" by (simp add: sink_ok_def)
    from sorted_wrt_last_max [OF this t] have "t \<le> last (sink_timestamps ?c)" .
    moreover from t have "sink_timestamps ?c \<noteq> []" by auto
    moreover from L r have "?start \<le> fst r" by blast
    ultimately show "t < fst r" by simp
  qed
qed

subsection \<open>Runs of the exporter\<close>

lemma sorted_wrt_take: "sorted_wrt P xs \<Longrightarrow> sorted_wrt P (take k xs)"
  by (metis append_take_drop_id sorted_wrt_append)

text \<open>
  Claim C1, as the code has it.  Let the upstream answer every request with distinct,
  positive timestamps at or after the requested \<^verbatim>\<open>date_begin\<close>, in rows that fit a line
  of 100 ASCII bytes, the keys of one page having the same number of digits; and let the
  sink be in order when the export starts.  Then the rows a run appends have strictly
  increasing timestamps; the sink left by the run, whether it ended by itself or was
  stopped after any whole row (the first \<open>k\<close> rows written), holds the old timestamps
  followed by the new ones, strictly increasing and so without repetition; and a second
  export on that sink with the same parameters appends no timestamp that the sink
  already holds and leaves a sink in order again.
\<close>

theorem export_rows_increasing:
  assumes "honest E" and "honest E'" and "header_ok field_names"
      and "sink_ok (content_of w fn)"
      and "dl_csv E fuel ws w fn dev md field_names de = (out, rows, ws1, w1)"
      and "content_of w2 fn = sink_after E (content_of w fn) field_names (take k rows)"
      and "dl_csv E' fuel' ws2 w2 fn dev md field_names de = (out', rows', ws3, w3)"
  shows "content_of w1 fn = sink_after E (content_of w fn) field_names rows
         \<and> sorted_wrt (<) (map fst rows)
         \<and> sink_timestamps (content_of w2 fn) =
             sink_timestamps (content_of w fn) @ map fst (take k rows)
         \<and> sorted_wrt (<) (sink_timestamps (content_of w2 fn))
         \<and> distinct (sink_timestamps (content_of w2 fn))
         \<and> (\<forall>r\<in>set rows'. fst r \<notin> set (sink_timestamps (content_of w2 fn)))
         \<and> sorted_wrt (<) (sink_timestamps (content_of w3 fn))"
proof -
  let ?c = "content_of w fn"
  note run1 = dl_csv_run [OF assms(1,3,4,5)]
  have s: "sorted_wrt (<) (map fst (take k rows))"
    using run1(2) by (simp add: take_map [symmetric] sorted_wrt_take)
  have r: "\<forall>r\<in>set (take k rows). row_ok E r \<and> 0 < fst r"
    using run1(3) by (auto dest: in_set_takeD)
  have a: "\<forall>t\<in>set (sink_timestamps ?c). \<forall>r\<in>set (take k rows). t < fst r"
    using run1(4) by (auto dest: in_set_takeD)
  note cut = sink_after_ok [OF assms(4,3) s r a]
  from cut assms(6) have ok2: "sink_ok (content_of w2 fn)"
    and ts2: "sink_timestamps (content_of w2 fn) = sink_timestamps ?c @ map fst (take k rows)"
    by simp_all
  from ok2 have sorted2: "sorted_wrt (<) (sink_timestamps (content_of w2 fn))"
    by (simp add: sink_ok_def)
  then have distinct2: "distinct (sink_timestamps (content_of w2 fn))"
    by (simp add: strict_sorted_iff)
  note run2 = dl_csv_run [OF assms(2,3) ok2 assms(7)]
  from run2(4) have fresh: "\<forall>r\<in>set rows'. fst r \<notin> set (sink_timestamps (content_of w2 fn))"
    by (metis less_irrefl)
  from sink_after_ok(2) [OF ok2 assms(3) run2(2,3,4)] run2(1)
  have "sink_ok (content_of w3 fn)" by simp
  then have sorted3: "sorted_wrt (<) (sink_timestamps (content_of w3 fn))"
    by (simp add: sink_ok_def)
  from run1(1,2) ts2 sorted2 distinct2 fresh sorted3 show ?thesis by blast
qed

end
